theory Spec2Isabelle
  imports Main "HOL-Library.Word"
begin

section \<open>JavaScript strings and numbers\<close>

text \<open>
  A JavaScript string is a sequence of 16-bit code units. A regular expression without
  the \<^verbatim>\<open>u\<close> flag, \<^verbatim>\<open>String.prototype.includes\<close> and \<^verbatim>\<open>trim\<close> all work on code units.
  \<open>js\<close> turns an ASCII literal of the source into its code units.
\<close>

type_synonym jschar = "16 word"
type_synonym jsstring = "jschar list"

definition js :: "string \<Rightarrow> jsstring" where
  "js s = map (\<lambda>c. of_nat (of_char c)) s"

text \<open>The class \<^verbatim>\<open>\d\<close>: the ten ASCII digits.\<close>

definition isDigit :: "jschar \<Rightarrow> bool" where
  "isDigit c = (0x30 \<le> c \<and> c \<le> 0x39)"

text \<open>ECMAScript LineTerminator: LF, CR, LS, PS. The atom \<^verbatim>\<open>.\<close> matches every other code unit.\<close>

definition isLineTerminator :: "jschar \<Rightarrow> bool" where
  "isLineTerminator c = (c = 0x000A \<or> c = 0x000D \<or> c = 0x2028 \<or> c = 0x2029)"

text \<open>ECMAScript WhiteSpace: TAB, VT, FF, ZWNBSP and the space separators (category Zs).\<close>

definition isWhiteSpace :: "jschar \<Rightarrow> bool" where
  "isWhiteSpace c = (c = 0x0009 \<or> c = 0x000B \<or> c = 0x000C \<or> c = 0x0020 \<or> c = 0x00A0
     \<or> c = 0x1680 \<or> (0x2000 \<le> c \<and> c \<le> 0x200A) \<or> c = 0x202F \<or> c = 0x205F
     \<or> c = 0x3000 \<or> c = 0xFEFF)"

text \<open>What \<^verbatim>\<open>trim\<close> and \<^verbatim>\<open>parseInt\<close> strip: white space and line terminators.\<close>

definition isStrWhiteSpaceChar :: "jschar \<Rightarrow> bool" where
  "isStrWhiteSpaceChar c = (isWhiteSpace c \<or> isLineTerminator c)"

text \<open>\<^verbatim>\<open>String.prototype.trim\<close>: strip at both ends.\<close>

definition trim :: "jsstring \<Rightarrow> jsstring" where
  "trim s = rev (dropWhile isStrWhiteSpaceChar (rev (dropWhile isStrWhiteSpaceChar s)))"

definition startsWith :: "jsstring \<Rightarrow> jsstring \<Rightarrow> bool" where
  "startsWith s t = (take (length t) s = t)"

text \<open>\<^verbatim>\<open>String.prototype.includes\<close>: \<open>includes' s t\<close> is \<^verbatim>\<open>s.includes(t)\<close>.\<close>

fun includes' :: "jsstring \<Rightarrow> jsstring \<Rightarrow> bool" where
  "includes' [] t = (t = [])"
| "includes' (c # cs) t = (startsWith (c # cs) t \<or> includes' cs t)"

text \<open>
  A JavaScript number, as far as this program needs it: \<open>NaN\<close>, the two infinities, or
  \<open>Num n\<close>, the number whose value is the integer \<open>n\<close> (a binary64 value; \<open>-0\<close> is not told
  apart from \<open>0\<close>).
\<close>

datatype jsnumber = NaN | Num int | PosInfinity | NegInfinity

definition digitValue :: "jschar \<Rightarrow> int" where
  "digitValue c = uint c - 48"

definition decimalValue :: "jsstring \<Rightarrow> int" where
  "decimalValue ds = foldl (\<lambda>acc c. 10 * acc + digitValue c) 0 ds"

text \<open>
  The Number value for a non-negative integer: binary64 has 53 significant bits, so an
  integer below \<open>2^53\<close> is kept as it is, and a larger one is rounded to the nearest multiple
  of \<open>2^e\<close>, where \<open>e\<close> is the number of bits beyond 53 (\<open>shiftCount\<close>); halfway goes to the
  even multiple, and a result of \<open>2^1024\<close> or more is \<^verbatim>\<open>Infinity\<close>.
\<close>

function shiftCount :: "int \<Rightarrow> nat" where
  "shiftCount v = (if v < 2 ^ 53 then 0 else Suc (shiftCount (v div 2)))"
  by pat_completeness auto
termination
  by (relation "measure nat") auto

declare shiftCount.simps [simp del]

definition toBinary64 :: "int \<Rightarrow> jsnumber" where
  "toBinary64 v =
     (let e = shiftCount v;
          q = v div 2 ^ e;
          r = v mod 2 ^ e;
          q' = (if 2 ^ e < 2 * r \<or> (2 * r = 2 ^ e \<and> odd q) then q + 1 else q)
      in if 2 ^ 1024 \<le> q' * 2 ^ e then PosInfinity else Num (q' * 2 ^ e))"

definition negate :: "jsnumber \<Rightarrow> jsnumber" where
  "negate x = (case x of NaN \<Rightarrow> NaN | Num n \<Rightarrow> Num (- n) | PosInfinity \<Rightarrow> NegInfinity | NegInfinity \<Rightarrow> PosInfinity)"

text \<open>
  \<^verbatim>\<open>parseInt(s, 10)\<close>: skip leading white space, read an optional sign, take the longest
  prefix of decimal digits; \<open>NaN\<close> when there is none. The result is the Number value for the
  integer that the digits denote, as Node computes it (ECMAScript lets an engine ignore
  digits after the twentieth significant one; Node's does not).
\<close>

definition parseInt10 :: "jsstring \<Rightarrow> jsnumber" where
  "parseInt10 s =
     (let s1 = dropWhile isStrWhiteSpaceChar s;
          negative = (s1 \<noteq> [] \<and> hd s1 = 0x2D);
          s2 = (if s1 \<noteq> [] \<and> (hd s1 = 0x2B \<or> hd s1 = 0x2D) then tl s1 else s1);
          z = takeWhile isDigit s2
      in if z = [] then NaN
         else if negative then negate (toBinary64 (decimalValue z))
         else toBinary64 (decimalValue z))"




text \<open>
  \<^verbatim>\<open>Array.prototype.slice(start)\<close> with one argument: a negative start counts from the end
  and is clamped at the first element, a positive one is clamped at the length.
\<close>

definition slice :: "'a list \<Rightarrow> int \<Rightarrow> 'a list" where
  "slice xs start =
     (let len = int (length xs);
          k = (if start < 0 then max (len + start) 0 else min start len)
      in drop (nat k) xs)"

section \<open>The regular expression of processDslError\<close>

text \<open>
  \<^verbatim>\<open>/workspace\.dsl: (.*?) at line (\d+) of ([^:]+):(.*)/\<close>

  The matcher follows the backtracking semantics of ECMAScript: every piece of the pattern
  takes the continuation that matches the rest of the pattern, and \<open>None\<close> is failure.
  A greedy quantifier first tries one more repetition and falls back to the continuation;
  a lazy one tries the continuation first. The accumulator holds what the group has
  captured so far.
\<close>

definition lit :: "jsstring \<Rightarrow> (jsstring \<Rightarrow> 'r option) \<Rightarrow> jsstring \<Rightarrow> 'r option" where
  "lit l k s = (if startsWith s l then k (drop (length l) s) else None)"

fun lazyStar :: "(jschar \<Rightarrow> bool) \<Rightarrow> (jsstring \<Rightarrow> jsstring \<Rightarrow> 'r option) \<Rightarrow> jsstring \<Rightarrow> jsstring \<Rightarrow> 'r option" where
  "lazyStar P k acc [] = k acc []"
| "lazyStar P k acc (c # cs) =
     (case k acc (c # cs) of
        Some r \<Rightarrow> Some r
      | None \<Rightarrow> if P c then lazyStar P k (acc @ [c]) cs else None)"

fun greedyStar :: "(jschar \<Rightarrow> bool) \<Rightarrow> (jsstring \<Rightarrow> jsstring \<Rightarrow> 'r option) \<Rightarrow> jsstring \<Rightarrow> jsstring \<Rightarrow> 'r option" where
  "greedyStar P k acc [] = k acc []"
| "greedyStar P k acc (c # cs) =
     (if P c
      then (case greedyStar P k (acc @ [c]) cs of
              Some r \<Rightarrow> Some r
            | None \<Rightarrow> k acc (c # cs))
      else k acc (c # cs))"

definition greedyPlus :: "(jschar \<Rightarrow> bool) \<Rightarrow> (jsstring \<Rightarrow> jsstring \<Rightarrow> 'r option) \<Rightarrow> jsstring \<Rightarrow> 'r option" where
  "greedyPlus P k s =
     (case s of [] \<Rightarrow> None | c # cs \<Rightarrow> if P c then greedyStar P k [c] cs else None)"

text \<open>The pattern, matched at the start of the given text; the result is the four groups.\<close>

definition dslErrorRegex :: "jsstring \<Rightarrow> (jsstring \<times> jsstring \<times> jsstring \<times> jsstring) option" where
  "dslErrorRegex =
     lit (js ''workspace.dsl: '')
       (lazyStar (\<lambda>c. \<not> isLineTerminator c)
         (\<lambda>errorMessage. lit (js '' at line '')
           (greedyPlus isDigit
             (\<lambda>lineNumber. lit (js '' of '')
               (greedyPlus (\<lambda>c. c \<noteq> 0x3A)
                 (\<lambda>filePath. lit (js '':'')
                   (greedyStar (\<lambda>c. \<not> isLineTerminator c)
                     (\<lambda>errorContext rest. Some (errorMessage, lineNumber, filePath, errorContext))
                     []))))))
         [])"

text \<open>
  \<^verbatim>\<open>String.prototype.match\<close> with a regular expression that has no \<^verbatim>\<open>g\<close> flag: the first
  position of the text, from the left, where the pattern matches.
\<close>

fun stringMatch :: "(jsstring \<Rightarrow> 'r option) \<Rightarrow> jsstring \<Rightarrow> 'r option" where
  "stringMatch re [] = re []"
| "stringMatch re (c # cs) = (case re (c # cs) of Some r \<Rightarrow> Some r | None \<Rightarrow> stringMatch re cs)"

section \<open>Suggestions\<close>

record suggestion =
  issue :: jsstring
  fix' :: jsstring

text \<open>The three fixed suggestions. Quotes and the line feed are written by their codes.\<close>

definition dynamicViewSuggestion :: suggestion where
  "dynamicViewSuggestion =
     \<lparr> issue = js ''The dynamic view syntax is incorrect. It needs a container/component identifier AND key.'',
       fix' = js (''Correct syntax: '' @ [CHR 0x27] @ ''dynamic ContainerName ErrorHandlingFlow {'' @ [CHR 0x27, CHR 0x0A]
                @ ''Alternatively: '' @ [CHR 0x27] @ ''dynamic ComponentName ErrorHandlingFlow {'' @ [CHR 0x27]) \<rparr>"

definition relationshipSuggestion :: suggestion where
  "relationshipSuggestion =
     \<lparr> issue = js (''There'' @ [CHR 0x27] @ ''s a relationship defined between components that doesn'' @ [CHR 0x27]
                @ ''t exist or has incorrect syntax''),
       fix' = js (''Check the relationship syntax and ensure both components exist: '' @ [CHR 0x27]
                @ ''<source> -> <destination> '' @ [CHR 0x22] @ ''description'' @ [CHR 0x22, CHR 0x27]) \<rparr>"

definition genericSuggestion :: suggestion where
  "genericSuggestion =
     \<lparr> issue = js ''Syntax error in the DSL file'',
       fix' = js ''Check the documentation at https://structurizr.com/dsl for correct syntax'' \<rparr>"

definition getSuggestionForError :: "jsstring \<Rightarrow> jsstring \<Rightarrow> suggestion" where
  "getSuggestionForError message context' =
     (if includes' message (js ''Unexpected tokens'') \<and> includes' context' (js ''dynamic'')
        then dynamicViewSuggestion
      else if includes' message (js ''Unknown relationship'') \<or> includes' message (js ''relationship'')
        then relationshipSuggestion
      else genericSuggestion)"

section \<open>Diagnostics, the log file and the console\<close>

text \<open>The object \<^verbatim>\<open>dslError\<close> that processDslError builds and returns.\<close>

record dslError =
  timestamp :: jsstring
  type' :: jsstring
  message :: jsstring
  filename :: jsstring
  line :: jsnumber
  column :: jsnumber
  context' :: jsstring
  suggestion :: suggestion

text \<open>
  JSON values as \<^verbatim>\<open>JSON.parse\<close> returns them. An object is the list of its properties in
  order.
\<close>

datatype json =
    JNull
  | JBool bool
  | JNum jsnumber
  | JStr jsstring
  | JArr "json list"
  | JObj "(jsstring \<times> json) list"

text \<open>
  The text of the log file is seen through \<^verbatim>\<open>JSON.parse\<close>: it is either no JSON at all, or
  the text of a JSON value. Writing \<^verbatim>\<open>JSON.stringify(v, null, 2)\<close> stores a text that parses
  back to \<open>v\<close>.
\<close>

datatype file_content = InvalidJson | Json json

datatype jserror = ReadError | SyntaxError | TypeError | RangeError | WriteError

datatype console_line = ConsoleLog "jsstring list" | ConsoleError jsstring jserror

text \<open>
  What the program sees of its environment: the log file \<^verbatim>\<open>CONFIG.dslLogFile\<close> (\<open>None\<close> when
  it does not exist), whether reading and writing that path succeed, the \<^verbatim>\<open>workspace.dsl\<close>
  file that the reported errors are about, the lines printed on the console, and the largest
  number of arguments that the engine passes in one call (a call with more throws
  \<^verbatim>\<open>RangeError\<close>; for Node it is of the order of a hundred thousand).
\<close>

record world =
  dslLogFile :: "file_content option"
  readable :: bool
  writable :: bool
  workspaceDsl :: "jsstring option"
  console :: "console_line list"
  maxArguments :: nat

definition consoleLog :: "jsstring list \<Rightarrow> world \<Rightarrow> world" where
  "consoleLog args w = w\<lparr>console := console w @ [ConsoleLog args]\<rparr>"

definition consoleError :: "jsstring \<Rightarrow> jserror \<Rightarrow> world \<Rightarrow> world" where
  "consoleError label e w = w\<lparr>console := console w @ [ConsoleError label e]\<rparr>"

definition existsSync :: "world \<Rightarrow> bool" where
  "existsSync w = (dslLogFile w \<noteq> None)"

definition readFileSync :: "world \<Rightarrow> jserror + file_content" where
  "readFileSync w =
     (case dslLogFile w of
        None \<Rightarrow> Inl ReadError
      | Some c \<Rightarrow> if readable w then Inr c else Inl ReadError)"

definition writeFileSync :: "file_content \<Rightarrow> world \<Rightarrow> jserror + world" where
  "writeFileSync c w = (if writable w then Inr (w\<lparr>dslLogFile := Some c\<rparr>) else Inl WriteError)"

definition JSON_parse :: "file_content \<Rightarrow> jserror + json" where
  "JSON_parse c = (case c of InvalidJson \<Rightarrow> Inl SyntaxError | Json v \<Rightarrow> Inr v)"

text \<open>\<^verbatim>\<open>JSON.parse(fs.readFileSync(CONFIG.dslLogFile, 'utf-8'))\<close>\<close>

definition readJson :: "world \<Rightarrow> jserror + json" where
  "readJson w = (case readFileSync w of Inl e \<Rightarrow> Inl e | Inr c \<Rightarrow> JSON_parse c)"

text \<open>
  The call \<^verbatim>\<open>dslErrors.push(...existingErrors)\<close>: an array is spread into its elements, a
  string into its code points (a surrogate pair is one code point), and any other JSON value
  is not iterable. The elements become the arguments of one call, which throws when there
  are more of them than the engine passes; nothing is pushed then.
\<close>

fun codePoints :: "jsstring \<Rightarrow> jsstring list" where
  "codePoints (c # d # cs) =
     (if 0xD800 \<le> c \<and> c \<le> 0xDBFF \<and> 0xDC00 \<le> d \<and> d \<le> 0xDFFF
      then [c, d] # codePoints cs
      else [c] # codePoints (d # cs))"
| "codePoints [c] = [[c]]"
| "codePoints [] = []"

definition spread :: "nat \<Rightarrow> json \<Rightarrow> jserror + json list" where
  "spread limit v =
     (case v of
        JArr xs \<Rightarrow> if length xs \<le> limit then Inr xs else Inl RangeError
      | JStr s \<Rightarrow>
          if length (codePoints s) \<le> limit then Inr (map JStr (codePoints s)) else Inl RangeError
      | _ \<Rightarrow> Inl TypeError)"

text \<open>
  A number in the log file: \<^verbatim>\<open>JSON.stringify\<close> writes \<^verbatim>\<open>null\<close> for \<open>NaN\<close> and for the
  infinities.
\<close>

definition jsonNumber :: "jsnumber \<Rightarrow> json" where
  "jsonNumber n = (case n of Num k \<Rightarrow> JNum (Num k) | _ \<Rightarrow> JNull)"

text \<open>The object that is pushed on the log for a \<^verbatim>\<open>dslError\<close>.\<close>

definition suggestionJson :: "suggestion \<Rightarrow> json" where
  "suggestionJson s = JObj [(js ''issue'', JStr (issue s)), (js ''fix'', JStr (fix' s))]"

definition logEntry :: "dslError \<Rightarrow> json" where
  "logEntry dslError =
     JObj [
       (js ''source'', JStr (js ''Structurizr DSL'')),
       (js ''severity'', JStr (js ''Error'')),
       (js ''message'', JStr (message dslError)),
       (js ''file'', JStr (filename dslError)),
       (js ''line'', jsonNumber (line dslError)),
       (js ''column'', jsonNumber (column dslError)),
       (js ''code'', JStr (js ''dsl-syntax'')),
       (js ''relatedInformation'', JArr [
          JObj [
            (js ''message'', JStr (js ''Context: '' @ context' dslError)),
            (js ''file'', JStr (filename dslError)),
            (js ''line'', jsonNumber (line dslError)),
            (js ''column'', jsonNumber (column dslError))]]),
       (js ''suggestion'', suggestionJson (suggestion dslError)),
       (js ''timestamp'', JStr (timestamp dslError))]"

section \<open>processDslError\<close>

text \<open>
  The entries already in the log, as processDslError collects them: none when the file does
  not exist; none, with an error on the console, when reading, parsing or the call of
  \<^verbatim>\<open>push\<close> throws.
\<close>

definition existingErrors :: "world \<Rightarrow> json list \<times> world" where
  "existingErrors w =
     (if existsSync w
      then (case readJson w of
              Inl e \<Rightarrow> ([], consoleError (js ''Error reading existing DSL errors:'') e w)
            | Inr v \<Rightarrow>
                (case spread (maxArguments w) v of
                   Inl e \<Rightarrow> ([], consoleError (js ''Error reading existing DSL errors:'') e w)
                 | Inr xs \<Rightarrow> (xs, w)))
      else ([], w))"

text \<open>
  \<open>now\<close> is the reading of the clock, \<^verbatim>\<open>new Date().toISOString()\<close>. The result is the
  returned \<^verbatim>\<open>dslError\<close>, \<open>None\<close> for \<^verbatim>\<open>null\<close>, or the exception that the write throws.
\<close>

definition processDslError :: "jsstring \<Rightarrow> jsstring \<Rightarrow> world \<Rightarrow> (jserror + dslError option) \<times> world" where
  "processDslError now errorText w0 =
     (let w1 = consoleLog [js ''Processing DSL error:'', errorText] w0 in
      case stringMatch dslErrorRegex errorText of
        Some (errorMessage, lineNumber, filePath, errorContext) \<Rightarrow>
          (let dslError = \<lparr>
                 timestamp = now,
                 type' = js ''DSL'',
                 message = trim errorMessage,
                 filename = trim filePath,
                 line = parseInt10 lineNumber,
                 column = Num 1,
                 context' = trim errorContext,
                 suggestion = getSuggestionForError (trim errorMessage) (trim errorContext) \<rparr>;
               (dslErrors, w2) = existingErrors w1
           in case writeFileSync (Json (JArr (dslErrors @ [logEntry dslError]))) w2 of
                Inl e \<Rightarrow> (Inl e, w2)
              | Inr w3 \<Rightarrow> (Inr (Some dslError), consoleLog [js ''DSL error processed and saved''] w3))
      | None \<Rightarrow> (Inr None, consoleLog [js ''Could not parse DSL error format''] w1))"

section \<open>The tools getDslErrors, clearDslErrors and fixDslError\<close>

text \<open>
  What a tool answers. The text of an answer of getDslErrors is determined by the entries it
  carries (a numbered summary and their JSON text), so the answer is kept as those entries.
\<close>

datatype tool_result =
    InvalidArguments
  | NoErrorsFound
  | FoundErrors "json list"
  | FailedToRetrieve jserror
  | Cleared
  | FailedToClear jserror
  | Text jsstring

text \<open>
  The summary line of an entry is the template literal
  \<^verbatim>\<open>${index + 1}. ${error.message} (Line ${error.line} in ${error.file})\<close>. Reading a
  property of \<^verbatim>\<open>null\<close> throws; every other value has the property or gives \<^verbatim>\<open>undefined\<close>
  (the keys of an object are distinct). Turning a property into a string throws for an
  object with a property \<open>toString\<close> of its own (no JSON value can be called), and for an
  array with such an element, since an array is printed by joining its elements.
\<close>

fun toStringThrows :: "json \<Rightarrow> bool" where
  "toStringThrows (JObj kvs) = (js ''toString'' \<in> fst ` set kvs)"
| "toStringThrows (JArr xs) = (\<exists>x\<in>set xs. toStringThrows x)"
| "toStringThrows _ = False"

definition propertyThrows :: "(jsstring \<times> json) list \<Rightarrow> jsstring \<Rightarrow> bool" where
  "propertyThrows kvs key = (case map_of kvs key of None \<Rightarrow> False | Some v \<Rightarrow> toStringThrows v)"

definition summaryThrows :: "json \<Rightarrow> bool" where
  "summaryThrows error =
     (case error of
        JNull \<Rightarrow> True
      | JObj kvs \<Rightarrow>
          propertyThrows kvs (js ''message'') \<or> propertyThrows kvs (js ''line'')
          \<or> propertyThrows kvs (js ''file'')
      | _ \<Rightarrow> False)"

text \<open>
  \<^verbatim>\<open>errors.slice(-count)\<close> on what \<^verbatim>\<open>JSON.parse\<close> returned: arrays and strings have a slice
  method, nothing else has. Then \<^verbatim>\<open>recentErrors.map\<close>, which a string does not have, builds
  the summary line of every entry.
\<close>

definition getDslErrors :: "int \<Rightarrow> world \<Rightarrow> tool_result \<times> world" where
  "getDslErrors count w =
     (let failed = (\<lambda>e. (FailedToRetrieve e, consoleError (js ''Error retrieving DSL errors:'') e w)) in
      case readJson w of
        Inl e \<Rightarrow> failed e
      | Inr errors \<Rightarrow>
          (case errors of
             JArr xs \<Rightarrow>
               (let recentErrors = slice xs (- count) in
                if length recentErrors = 0 then (NoErrorsFound, w)
                else if \<exists>error\<in>set recentErrors. summaryThrows error then failed TypeError
                else (FoundErrors recentErrors, w))
           | JStr s \<Rightarrow>
               (let recentErrors = slice s (- count) in
                if length recentErrors = 0 then (NoErrorsFound, w)
                else failed TypeError)
           | _ \<Rightarrow> failed TypeError))"

text \<open>The input schema: \<^verbatim>\<open>z.number().int().min(1).max(100).default(10)\<close>.\<close>

definition getDslErrorsTool :: "int option \<Rightarrow> world \<Rightarrow> tool_result \<times> world" where
  "getDslErrorsTool arg w =
     (case arg of
        None \<Rightarrow> getDslErrors 10 w
      | Some count \<Rightarrow> if 1 \<le> count \<and> count \<le> 100 then getDslErrors count w else (InvalidArguments, w))"

definition clearDslErrors :: "world \<Rightarrow> tool_result \<times> world" where
  "clearDslErrors w =
     (case writeFileSync (Json (JArr [])) w of
        Inr w' \<Rightarrow> (Cleared, w')
      | Inl e \<Rightarrow> (FailedToClear e, consoleError (js ''Error clearing DSL log:'') e w))"



text \<open>
  The part of the pattern after the first group, with the greedy quantifiers resolved: a
  greedy run of a class followed by a literal that starts outside the class can only end
  where the run ends (\<open>dslErrorRegex_closed\<close> below proves that it is the same matcher).
\<close>

definition afterMessage :: "jsstring \<Rightarrow> jsstring \<Rightarrow> (jsstring \<times> jsstring \<times> jsstring \<times> jsstring) option" where
  "afterMessage errorMessage =
     lit (js '' at line '')
       (\<lambda>s1. if takeWhile isDigit s1 = [] then None
             else lit (js '' of '')
               (\<lambda>s2. if takeWhile (\<lambda>c. c \<noteq> 0x3A) s2 = [] then None
                     else lit (js '':'')
                       (\<lambda>s3. Some (errorMessage, takeWhile isDigit s1, takeWhile (\<lambda>c. c \<noteq> 0x3A) s2,
                                   takeWhile (\<lambda>c. \<not> isLineTerminator c) s3))
                       (dropWhile (\<lambda>c. c \<noteq> 0x3A) s2))
               (dropWhile isDigit s1))"

section \<open>Strings and the matcher\<close>

lemma startsWith_append [simp]: "startsWith (l @ s) l"
  by (simp add: startsWith_def)

lemma startsWith_iff: "startsWith s l \<longleftrightarrow> (\<exists>t. s = l @ t)"
  unfolding startsWith_def by (metis append_eq_conv_conj)

lemma includes'_iff: "includes' s t \<longleftrightarrow> (\<exists>p q. s = p @ t @ q)"
proof (induction s)
  case Nil
  then show ?case by simp
next
  case (Cons c cs)
  show ?case
  proof
    assume "includes' (c # cs) t"
    then consider "startsWith (c # cs) t" | "includes' cs t" by auto
    then show "\<exists>p q. c # cs = p @ t @ q"
    proof cases
      case 1
      then obtain q where "c # cs = t @ q" by (auto simp: startsWith_iff)
      then have "c # cs = [] @ t @ q" by simp
      then show ?thesis by blast
    next
      case 2
      then obtain p q where "cs = p @ t @ q" using Cons.IH by blast
      then have "c # cs = (c # p) @ t @ q" by simp
      then show ?thesis by blast
    qed
  next
    assume "\<exists>p q. c # cs = p @ t @ q"
    then obtain p q where pq: "c # cs = p @ t @ q" by blast
    show "includes' (c # cs) t"
    proof (cases p)
      case Nil
      with pq have "startsWith (c # cs) t" by (simp add: startsWith_iff)
      then show ?thesis by simp
    next
      case (Cons a p')
      then have "cs = p' @ t @ q" using pq by simp
      then show ?thesis using Cons.IH by auto
    qed
  qed
qed

lemma lit_append [simp]: "lit l k (l @ s) = k s"
  by (simp add: lit_def)

lemma lit_Some: "lit l k s = Some r \<Longrightarrow> \<exists>t. s = l @ t \<and> k t = Some r"
  by (auto simp: lit_def startsWith_iff split: if_splits)

lemma greedyStar_lit:
  assumes "l \<noteq> []" "\<not> P (hd l)"
  shows "greedyStar P (\<lambda>g. lit l (k g)) acc s = lit l (k (acc @ takeWhile P s)) (dropWhile P s)"
proof (induction s arbitrary: acc)
  case Nil
  then show ?case by simp
next
  case (Cons c cs)
  show ?case
  proof (cases "P c")
    case True
    have "\<not> startsWith (c # cs) l"
      using assms True by (cases l) (auto simp: startsWith_def)
    then have "lit l (k acc) (c # cs) = None" by (simp add: lit_def)
    with True Cons[of "acc @ [c]"] show ?thesis
      by (simp split: option.splits)
  next
    case False
    then show ?thesis by simp
  qed
qed

lemma greedyStar_total:
  "greedyStar P (\<lambda>g r. Some (f g)) acc s = Some (f (acc @ takeWhile P s))"
  by (induction s arbitrary: acc) auto

lemma greedyPlus_lit:
  assumes "l \<noteq> []" "\<not> P (hd l)"
  shows "greedyPlus P (\<lambda>g. lit l (k g)) s =
    (if takeWhile P s = [] then None else lit l (k (takeWhile P s)) (dropWhile P s))"
proof (cases s)
  case Nil
  then show ?thesis by (simp add: greedyPlus_def)
next
  case (Cons c cs)
  have "greedyStar P (\<lambda>g. lit l (k g)) [c] cs = lit l (k ([c] @ takeWhile P cs)) (dropWhile P cs)"
    using assms by (rule greedyStar_lit)
  with Cons show ?thesis by (simp add: greedyPlus_def)
qed

lemma lazyStar_sound:
  "lazyStar P k acc s = Some r \<Longrightarrow>
     \<exists>m t. s = m @ t \<and> (\<forall>c\<in>set m. P c) \<and> k (acc @ m) t = Some r"
proof (induction s arbitrary: acc)
  case Nil
  then show ?case by simp
next
  case (Cons c cs)
  show ?case
  proof (cases "k acc (c # cs)")
    case (Some a)
    with Cons.prems have "k (acc @ []) (c # cs) = Some r" by simp
    then show ?thesis by (metis append_Nil empty_iff list.set(1))
  next
    case None
    with Cons.prems have pc: "P c" and "lazyStar P k (acc @ [c]) cs = Some r"
      by (auto split: if_splits)
    then obtain m t where "cs = m @ t" "\<forall>c\<in>set m. P c" "k ((acc @ [c]) @ m) t = Some r"
      using Cons.IH by blast
    then have "c # cs = (c # m) @ t \<and> (\<forall>x\<in>set (c # m). P x) \<and> k (acc @ (c # m)) t = Some r"
      using pc by simp
    then show ?thesis by blast
  qed
qed

lemma lazyStar_complete:
  "\<forall>c\<in>set m. P c \<Longrightarrow> k (acc @ m) t \<noteq> None \<Longrightarrow> lazyStar P k acc (m @ t) \<noteq> None"
proof (induction m arbitrary: acc)
  case Nil
  then show ?case by (cases t) (auto split: option.splits)
next
  case (Cons c m)
  then have "lazyStar P k (acc @ [c]) (m @ t) \<noteq> None" by simp
  with Cons.prems show ?case by (auto split: option.splits)
qed

lemma stringMatch_sound:
  "stringMatch re s = Some r \<Longrightarrow> \<exists>pre t. s = pre @ t \<and> re t = Some r"
proof (induction s)
  case Nil
  then show ?case by simp
next
  case (Cons c cs)
  show ?case
  proof (cases "re (c # cs)")
    case None
    with Cons obtain pre t where "cs = pre @ t" "re t = Some r" by auto
    then have "c # cs = (c # pre) @ t \<and> re t = Some r" by simp
    then show ?thesis by blast
  next
    case (Some a)
    with Cons.prems have "c # cs = [] @ (c # cs) \<and> re (c # cs) = Some r" by simp
    then show ?thesis by blast
  qed
qed

lemma stringMatch_complete:
  "re t \<noteq> None \<Longrightarrow> stringMatch re (pre @ t) \<noteq> None"
proof (induction pre)
  case Nil
  then show ?case by (cases t) (auto split: option.splits)
next
  case (Cons c pre)
  then show ?case by (auto split: option.splits)
qed

lemma js_Nil [simp]: "js [] = []" by (simp add: js_def)
lemma length_js [simp]: "length (js s) = length s" by (simp add: js_def)

lemma dslErrorRegex_closed:
  "dslErrorRegex = lit (js ''workspace.dsl: '') (lazyStar (\<lambda>c. \<not> isLineTerminator c) afterMessage [])"
proof -
  have a: "js '' of '' \<noteq> []" "\<not> isDigit (hd (js '' of ''))"
    by (simp_all add: js_def isDigit_def)
  have b: "js '':'' \<noteq> []" "\<not> (hd (js '':'') \<noteq> (0x3A :: jschar))"
    by (simp_all add: js_def)
  have "(\<lambda>errorMessage. lit (js '' at line '')
           (greedyPlus isDigit
             (\<lambda>lineNumber. lit (js '' of '')
               (greedyPlus (\<lambda>c. c \<noteq> 0x3A)
                 (\<lambda>filePath. lit (js '':'')
                   (greedyStar (\<lambda>c. \<not> isLineTerminator c)
                     (\<lambda>errorContext rest. Some (errorMessage, lineNumber, filePath, errorContext))
                     []))))))
       = afterMessage"
    unfolding greedyPlus_lit[where l="js '' of ''" and P=isDigit, OF a]
        greedyPlus_lit[where l="js '':''" and P="\<lambda>c. c \<noteq> 0x3A", OF b] greedyStar_total append_Nil
    by (intro ext) (simp add: afterMessage_def)
  then show ?thesis unfolding dslErrorRegex_def by simp
qed

lemma afterMessage_sound:
  assumes "afterMessage g s = Some r"
  shows "\<exists>n f c post. r = (g, n, f, c)
           \<and> s = js '' at line '' @ n @ js '' of '' @ f @ js '':'' @ c @ post
           \<and> n \<noteq> [] \<and> (\<forall>x\<in>set n. isDigit x)
           \<and> f \<noteq> [] \<and> 0x3A \<notin> set f
           \<and> (\<forall>x\<in>set c. \<not> isLineTerminator x)
           \<and> (post = [] \<or> isLineTerminator (hd post))"
proof -
  from assms obtain s1 where s1: "s = js '' at line '' @ s1" and n: "takeWhile isDigit s1 \<noteq> []"
    and r1: "lit (js '' of '')
               (\<lambda>s2. if takeWhile (\<lambda>c. c \<noteq> 0x3A) s2 = [] then None
                     else lit (js '':'')
                       (\<lambda>s3. Some (g, takeWhile isDigit s1, takeWhile (\<lambda>c. c \<noteq> 0x3A) s2,
                                   takeWhile (\<lambda>c. \<not> isLineTerminator c) s3))
                       (dropWhile (\<lambda>c. c \<noteq> 0x3A) s2))
               (dropWhile isDigit s1) = Some r"
    unfolding afterMessage_def by (auto dest!: lit_Some split: if_splits)
  from r1 obtain s2 where s2: "dropWhile isDigit s1 = js '' of '' @ s2"
    and f: "takeWhile (\<lambda>c. c \<noteq> 0x3A) s2 \<noteq> []"
    and r2: "lit (js '':'')
                       (\<lambda>s3. Some (g, takeWhile isDigit s1, takeWhile (\<lambda>c. c \<noteq> 0x3A) s2,
                                   takeWhile (\<lambda>c. \<not> isLineTerminator c) s3))
                       (dropWhile (\<lambda>c. c \<noteq> 0x3A) s2) = Some r"
    by (auto dest!: lit_Some split: if_splits)
  from r2 obtain s3 where s3: "dropWhile (\<lambda>c. c \<noteq> 0x3A) s2 = js '':'' @ s3"
    and r: "r = (g, takeWhile isDigit s1, takeWhile (\<lambda>c. c \<noteq> 0x3A) s2,
                                   takeWhile (\<lambda>c. \<not> isLineTerminator c) s3)"
    by (auto dest!: lit_Some)
  let ?n = "takeWhile isDigit s1" and ?f = "takeWhile (\<lambda>c. c \<noteq> 0x3A) s2"
  let ?c = "takeWhile (\<lambda>c. \<not> isLineTerminator c) s3" and ?post = "dropWhile (\<lambda>c. \<not> isLineTerminator c) s3"
  have "s1 = ?n @ dropWhile isDigit s1" by simp
  also have "\<dots> = ?n @ js '' of '' @ s2" using s2 by simp
  also have "s2 = ?f @ dropWhile (\<lambda>c. c \<noteq> 0x3A) s2" by simp
  also have "\<dots> = ?f @ js '':'' @ s3" using s3 by simp
  also have "s3 = ?c @ ?post" by simp
  finally have "s = js '' at line '' @ ?n @ js '' of '' @ ?f @ js '':'' @ ?c @ ?post"
    using s1 by simp
  moreover have "\<forall>x\<in>set ?n. isDigit x" by (auto dest: set_takeWhileD)
  moreover have "0x3A \<notin> set ?f" by (auto dest: set_takeWhileD)
  moreover have "\<forall>x\<in>set ?c. \<not> isLineTerminator x" by (auto dest: set_takeWhileD)
  moreover have "?post = [] \<or> isLineTerminator (hd ?post)"
    using hd_dropWhile[of "\<lambda>c. \<not> isLineTerminator c" s3] by blast
  ultimately show ?thesis using r n f by blast
qed

lemma afterMessage_exact:
  assumes "n \<noteq> []" "\<forall>x\<in>set n. isDigit x" "f \<noteq> []" "0x3A \<notin> set f"
  shows "afterMessage g (js '' at line '' @ n @ js '' of '' @ f @ js '':'' @ rest)
           = Some (g, n, f, takeWhile (\<lambda>x. \<not> isLineTerminator x) rest)"
proof -
  have dn: "\<And>x. x \<in> set n \<Longrightarrow> isDigit x" using assms(2) by blast
  have df: "\<And>x. x \<in> set f \<Longrightarrow> x \<noteq> 0x3A" using assms(4) by blast
  have n1: "takeWhile isDigit (n @ js '' of '' @ f @ js '':'' @ rest) = n"
    by (simp add: takeWhile_append2[OF dn] js_def isDigit_def)
  have n2: "dropWhile isDigit (n @ js '' of '' @ f @ js '':'' @ rest) = js '' of '' @ f @ js '':'' @ rest"
    by (simp add: dropWhile_append2[OF dn] js_def isDigit_def)
  have f1: "takeWhile (\<lambda>c. c \<noteq> 0x3A) (f @ js '':'' @ rest) = f"
    by (simp add: takeWhile_append2[OF df] js_def)
  have f2: "dropWhile (\<lambda>c. c \<noteq> 0x3A) (f @ js '':'' @ rest) = js '':'' @ rest"
    by (simp add: dropWhile_append2[OF df] js_def)
  show ?thesis
    unfolding afterMessage_def using assms(1,3) by (simp add: n1 n2 f1 f2)
qed

lemma afterMessage_complete:
  assumes "n \<noteq> []" "\<forall>x\<in>set n. isDigit x" "f \<noteq> []" "0x3A \<notin> set f"
  shows "afterMessage g (js '' at line '' @ n @ js '' of '' @ f @ js '':'' @ rest) \<noteq> None"
  using afterMessage_exact[OF assms] by simp

lemma dslErrorRegex_sound:
  assumes "stringMatch dslErrorRegex s = Some (g1, g2, g3, g4)"
  shows "\<exists>pre post.
           s = pre @ js ''workspace.dsl: '' @ g1 @ js '' at line '' @ g2 @ js '' of '' @ g3 @ js '':'' @ g4 @ post
           \<and> (\<forall>x\<in>set g1. \<not> isLineTerminator x)
           \<and> g2 \<noteq> [] \<and> (\<forall>x\<in>set g2. isDigit x)
           \<and> g3 \<noteq> [] \<and> 0x3A \<notin> set g3
           \<and> (\<forall>x\<in>set g4. \<not> isLineTerminator x)
           \<and> (post = [] \<or> isLineTerminator (hd post))"
proof -
  from stringMatch_sound[OF assms] obtain pre t where
    s: "s = pre @ t" and t: "dslErrorRegex t = Some (g1, g2, g3, g4)" by blast
  from t obtain u where u: "t = js ''workspace.dsl: '' @ u"
    and l: "lazyStar (\<lambda>c. \<not> isLineTerminator c) afterMessage [] u = Some (g1, g2, g3, g4)"
    unfolding dslErrorRegex_closed by (auto dest!: lit_Some)
  from lazyStar_sound[OF l] obtain m v where
    v: "u = m @ v" and m: "\<forall>c\<in>set m. \<not> isLineTerminator c"
    and a: "afterMessage ([] @ m) v = Some (g1, g2, g3, g4)" by blast
  from afterMessage_sound[OF a] obtain post where
    "g1 = m" "v = js '' at line '' @ g2 @ js '' of '' @ g3 @ js '':'' @ g4 @ post"
    "g2 \<noteq> []" "\<forall>x\<in>set g2. isDigit x" "g3 \<noteq> []" "0x3A \<notin> set g3"
    "\<forall>x\<in>set g4. \<not> isLineTerminator x" "post = [] \<or> isLineTerminator (hd post)"
    by auto
  with s u v m show ?thesis by auto
qed

lemma dslErrorRegex_complete:
  assumes "\<forall>x\<in>set m. \<not> isLineTerminator x" "n \<noteq> []" "\<forall>x\<in>set n. isDigit x" "f \<noteq> []" "0x3A \<notin> set f"
  shows "stringMatch dslErrorRegex
           (pre @ js ''workspace.dsl: '' @ m @ js '' at line '' @ n @ js '' of '' @ f @ js '':'' @ rest) \<noteq> None"
proof -
  have "afterMessage ([] @ m) (js '' at line '' @ n @ js '' of '' @ f @ js '':'' @ rest) \<noteq> None"
    using assms(2-5) by (rule afterMessage_complete)
  then have "lazyStar (\<lambda>c. \<not> isLineTerminator c) afterMessage []
               (m @ js '' at line '' @ n @ js '' of '' @ f @ js '':'' @ rest) \<noteq> None"
    using assms(1) by (intro lazyStar_complete) auto
  then have "dslErrorRegex (js ''workspace.dsl: '' @ m @ js '' at line '' @ n @ js '' of '' @ f @ js '':'' @ rest) \<noteq> None"
    unfolding dslErrorRegex_closed by simp
  then show ?thesis by (rule stringMatch_complete)
qed

text \<open>The texts on which the pattern matches are exactly the texts of the expected shape.\<close>

lemma dslErrorRegex_matches_iff:
  "stringMatch dslErrorRegex s \<noteq> None \<longleftrightarrow>
     (\<exists>pre m n f c.
        s = pre @ js ''workspace.dsl: '' @ m @ js '' at line '' @ n @ js '' of '' @ f @ js '':'' @ c
        \<and> (\<forall>x\<in>set m. \<not> isLineTerminator x) \<and> n \<noteq> [] \<and> (\<forall>x\<in>set n. isDigit x)
        \<and> f \<noteq> [] \<and> 0x3A \<notin> set f)"
proof
  assume "stringMatch dslErrorRegex s \<noteq> None"
  then obtain g1 g2 g3 g4 where "stringMatch dslErrorRegex s = Some (g1, g2, g3, g4)" by auto
  from dslErrorRegex_sound[OF this] obtain pre post where
    "s = pre @ js ''workspace.dsl: '' @ g1 @ js '' at line '' @ g2 @ js '' of '' @ g3 @ js '':'' @ (g4 @ post)"
    "\<forall>x\<in>set g1. \<not> isLineTerminator x" "g2 \<noteq> []" "\<forall>x\<in>set g2. isDigit x" "g3 \<noteq> []" "0x3A \<notin> set g3"
    by auto
  then show "\<exists>pre m n f c.
        s = pre @ js ''workspace.dsl: '' @ m @ js '' at line '' @ n @ js '' of '' @ f @ js '':'' @ c
        \<and> (\<forall>x\<in>set m. \<not> isLineTerminator x) \<and> n \<noteq> [] \<and> (\<forall>x\<in>set n. isDigit x)
        \<and> f \<noteq> [] \<and> 0x3A \<notin> set f"
    by blast
next
  assume "\<exists>pre m n f c.
        s = pre @ js ''workspace.dsl: '' @ m @ js '' at line '' @ n @ js '' of '' @ f @ js '':'' @ c
        \<and> (\<forall>x\<in>set m. \<not> isLineTerminator x) \<and> n \<noteq> [] \<and> (\<forall>x\<in>set n. isDigit x)
        \<and> f \<noteq> [] \<and> 0x3A \<notin> set f"
  then show "stringMatch dslErrorRegex s \<noteq> None"
    using dslErrorRegex_complete by blast
qed

lemma set_trim: "set (trim s) \<subseteq> set s"
proof -
  have "set (trim s) \<subseteq> set (rev (dropWhile isStrWhiteSpaceChar s))"
    unfolding trim_def using set_dropWhileD by fastforce
  also have "\<dots> \<subseteq> set s" using set_dropWhileD by fastforce
  finally show ?thesis .
qed

lemma isDigit_not_space: "isDigit c \<Longrightarrow> \<not> isStrWhiteSpaceChar c"
  unfolding isDigit_def isStrWhiteSpaceChar_def isWhiteSpace_def isLineTerminator_def
  by (auto simp: word_le_nat_alt)

lemma isDigit_not_sign: "isDigit c \<Longrightarrow> c \<noteq> 0x2B \<and> c \<noteq> 0x2D"
  unfolding isDigit_def by auto

lemma digitValue_range: "isDigit c \<Longrightarrow> 0 \<le> digitValue c \<and> digitValue c \<le> 9"
  unfolding isDigit_def digitValue_def by (auto simp: word_le_def)

lemma digitValue_zero: "digitValue c = 0 \<longleftrightarrow> c = 0x30"
proof -
  have "uint c = 48 \<Longrightarrow> c = 48"
  proof -
    assume "uint c = 48"
    then have "word_of_int (uint c) = (word_of_int 48 :: jschar)" by simp
    then show "c = 48" by simp
  qed
  then show "digitValue c = 0 \<longleftrightarrow> c = 0x30"
    unfolding digitValue_def by auto
qed

lemma afterMessage_startsWith: "afterMessage g s \<noteq> None \<Longrightarrow> startsWith s (js '' at line '')"
  unfolding afterMessage_def lit_def by (auto split: if_splits)

lemma lazyStar_first:
  assumes "\<forall>c\<in>set m. P c" "\<forall>j<length m. k (acc @ take j m) (drop j m @ t) = None"
    and "k (acc @ m) t = Some r"
  shows "lazyStar P k acc (m @ t) = Some r"
  using assms
proof (induction m arbitrary: acc)
  case Nil
  then show ?case by (cases t) auto
next
  case (Cons c m)
  have 0: "k acc (c # m @ t) = None" using Cons.prems(2)[rule_format, of 0] by simp
  have "\<forall>j<length m. k ((acc @ [c]) @ take j m) (drop j m @ t) = None"
  proof (intro allI impI)
    fix j assume "j < length m"
    then show "k ((acc @ [c]) @ take j m) (drop j m @ t) = None"
      using Cons.prems(2)[rule_format, of "Suc j"] by simp
  qed
  then have "lazyStar P k (acc @ [c]) (m @ t) = Some r"
    using Cons.prems by (intro Cons.IH) auto
  with 0 Cons.prems(1) show ?case by simp
qed

lemma no_early_at_line:
  assumes "\<not> includes' (m @ js '' at line'') (js '' at line '')" "j < length m"
  shows "\<not> startsWith (drop j m @ js '' at line '' @ rest) (js '' at line '')"
proof
  assume "startsWith (drop j m @ js '' at line '' @ rest) (js '' at line '')"
  then obtain t where t: "drop j m @ js '' at line '' @ rest = js '' at line '' @ t"
    by (auto simp: startsWith_iff)
  have "m @ js '' at line '' @ rest = take j m @ js '' at line '' @ t"
    using t by (metis append_assoc append_take_drop_id)
  then have "take (length m + 8) (m @ js '' at line '' @ rest) = take (length m + 8) (take j m @ js '' at line '' @ t)"
    by simp
  moreover have "take (length m + 8) (m @ js '' at line '' @ rest) = m @ js '' at line''"
    by (simp add: js_def)
  moreover have "take (length m + 8) (take j m @ js '' at line '' @ t)
        = take j m @ js '' at line '' @ take (length m + 8 - j - 9) t"
    using assms(2) by (simp add: min_def)
  ultimately have "m @ js '' at line'' = take j m @ js '' at line '' @ take (length m + 8 - j - 9) t"
    by simp
  then have "includes' (m @ js '' at line'') (js '' at line '')"
    unfolding includes'_iff by blast
  with assms(1) show False by blast
qed

lemma stringMatch_here: "re s = Some r \<Longrightarrow> stringMatch re s = Some r"
  by (cases s) auto

lemma dslErrorRegex_exact:
  assumes "\<forall>x\<in>set m. \<not> isLineTerminator x" "\<not> includes' (m @ js '' at line'') (js '' at line '')"
    and "n \<noteq> []" "\<forall>x\<in>set n. isDigit x" "f \<noteq> []" "0x3A \<notin> set f"
  shows "stringMatch dslErrorRegex
           (js ''workspace.dsl: '' @ m @ js '' at line '' @ n @ js '' of '' @ f @ js '':'' @ rest)
         = Some (m, n, f, takeWhile (\<lambda>x. \<not> isLineTerminator x) rest)"
proof -
  let ?t = "js '' at line '' @ n @ js '' of '' @ f @ js '':'' @ rest"
  have early: "\<forall>j<length m. afterMessage ([] @ take j m) (drop j m @ ?t) = None"
  proof (intro allI impI)
    fix j assume "j < length m"
    then have "\<not> startsWith (drop j m @ ?t) (js '' at line '')"
      using assms(2) by (rule no_early_at_line[rotated])
    then show "afterMessage ([] @ take j m) (drop j m @ ?t) = None"
      using afterMessage_startsWith by blast
  qed
  have "afterMessage ([] @ m) ?t = Some (m, n, f, takeWhile (\<lambda>x. \<not> isLineTerminator x) rest)"
    using afterMessage_exact[OF assms(3-6)] by simp
  with assms(1) early
  have "lazyStar (\<lambda>c. \<not> isLineTerminator c) afterMessage [] (m @ ?t)
          = Some (m, n, f, takeWhile (\<lambda>x. \<not> isLineTerminator x) rest)"
    by (intro lazyStar_first) auto
  then have "dslErrorRegex (js ''workspace.dsl: '' @ m @ ?t)
          = Some (m, n, f, takeWhile (\<lambda>x. \<not> isLineTerminator x) rest)"
    unfolding dslErrorRegex_closed by simp
  then show ?thesis by (rule stringMatch_here)
qed

lemma decimalValue_foldl_nonneg:
  "0 \<le> a \<Longrightarrow> \<forall>x\<in>set ds. isDigit x \<Longrightarrow> 0 \<le> foldl (\<lambda>acc c. 10 * acc + digitValue c) a ds"
proof (induction ds arbitrary: a)
  case Nil
  then show ?case by simp
next
  case (Cons d ds)
  then have "0 \<le> 10 * a + digitValue d" using digitValue_range[of d] by simp
  with Cons show ?case by simp
qed

lemma decimalValue_nonneg: "\<forall>x\<in>set ds. isDigit x \<Longrightarrow> 0 \<le> decimalValue ds"
  unfolding decimalValue_def by (rule decimalValue_foldl_nonneg) simp

lemma decimalValue_foldl_zero:
  "0 \<le> a \<Longrightarrow> \<forall>x\<in>set ds. isDigit x \<Longrightarrow>
     foldl (\<lambda>acc c. 10 * acc + digitValue c) a ds = 0 \<longleftrightarrow> a = 0 \<and> set ds \<subseteq> {0x30}"
proof (induction ds arbitrary: a)
  case Nil
  then show ?case by simp
next
  case (Cons d ds)
  have r: "0 \<le> digitValue d" using Cons.prems digitValue_range[of d] by simp
  then have "0 \<le> 10 * a + digitValue d" using Cons.prems by simp
  then have "foldl (\<lambda>acc c. 10 * acc + digitValue c) (10 * a + digitValue d) ds = 0
      \<longleftrightarrow> 10 * a + digitValue d = 0 \<and> set ds \<subseteq> {0x30}"
    using Cons by simp
  moreover have "10 * a + digitValue d = 0 \<longleftrightarrow> a = 0 \<and> d = 0x30"
    using r Cons.prems(1) digitValue_zero[of d] by auto
  ultimately show ?case by auto
qed

lemma decimalValue_zero: "\<forall>x\<in>set ds. isDigit x \<Longrightarrow> decimalValue ds = 0 \<longleftrightarrow> set ds \<subseteq> {0x30}"
  unfolding decimalValue_def using decimalValue_foldl_zero[of 0 ds] by simp

lemma shiftCount_small: "v < 2 ^ 53 \<Longrightarrow> shiftCount v = 0"
  by (simp add: shiftCount.simps)

lemma shiftCount_bounds:
  "2 ^ 53 \<le> v \<Longrightarrow> 2 ^ 52 \<le> v div 2 ^ shiftCount v \<and> v div 2 ^ shiftCount v < 2 ^ 53"
proof (induction v rule: shiftCount.induct)
  case (1 v)
  have s: "shiftCount v = Suc (shiftCount (v div 2))"
    using "1.prems" by (simp add: shiftCount.simps[of v])
  have d: "v div 2 ^ Suc (shiftCount (v div 2)) = v div 2 div 2 ^ shiftCount (v div 2)"
    by (simp add: zdiv_zmult2_eq)
  show ?case
  proof (cases "v div 2 < 2 ^ 53")
    case True
    then have "shiftCount (v div 2) = 0" by (rule shiftCount_small)
    moreover have "2 ^ 52 \<le> v div 2" using "1.prems" by simp
    ultimately show ?thesis using True s by simp
  next
    case False
    with 1 have "2 ^ 52 \<le> v div 2 div 2 ^ shiftCount (v div 2)
        \<and> v div 2 div 2 ^ shiftCount (v div 2) < 2 ^ 53"
      by simp
    then show ?thesis unfolding s d .
  qed
qed

lemma toBinary64_exact:
  assumes "0 \<le> v" "v \<le> 2 ^ 53"
  shows "toBinary64 v = Num v"
proof (cases "v < 2 ^ 53")
  case True
  then show ?thesis by (simp add: toBinary64_def shiftCount_small)
next
  case False
  with assms have "v = 2 ^ 53" by simp
  then show ?thesis by (simp add: toBinary64_def shiftCount.simps Let_def)
qed

lemma toBinary64_cases:
  assumes "0 \<le> v"
  shows "toBinary64 v = PosInfinity \<or> (\<exists>k. toBinary64 v = Num k \<and> 0 \<le> k \<and> (k = 0 \<longleftrightarrow> v = 0))"
proof (cases "v < 2 ^ 53")
  case True
  then show ?thesis using assms by (simp add: toBinary64_def shiftCount_small)
next
  case False
  let ?e = "shiftCount v" and ?q = "v div 2 ^ shiftCount v" and ?r = "v mod 2 ^ shiftCount v"
  let ?q' = "if 2 ^ ?e < 2 * ?r \<or> (2 * ?r = 2 ^ ?e \<and> odd ?q) then ?q + 1 else ?q"
  from False have "2 ^ 52 \<le> ?q" using shiftCount_bounds[of v] by simp
  then have "0 < ?q'" by simp
  then have "0 < ?q' * 2 ^ ?e" by simp
  moreover have "toBinary64 v = (if 2 ^ 1024 \<le> ?q' * 2 ^ ?e then PosInfinity else Num (?q' * 2 ^ ?e))"
    by (simp add: toBinary64_def Let_def)
  ultimately show ?thesis using False by (cases "2 ^ 1024 \<le> ?q' * 2 ^ ?e") auto
qed

lemma toBinary64_Infinity:
  assumes "2 ^ 1024 \<le> v"
  shows "toBinary64 v = PosInfinity"
proof -
  define e where "e = shiftCount v"
  define q where "q = v div 2 ^ e"
  define r where "r = v mod 2 ^ e"
  define q' where "q' = (if 2 ^ e < 2 * r \<or> (2 * r = 2 ^ e \<and> odd q) then q + 1 else q)"
  have big: "(2::int) ^ 53 \<le> v" using assms by (rule order_trans[rotated]) simp
  then have q: "2 ^ 52 \<le> q" "q < 2 ^ 53" using shiftCount_bounds[of v] by (simp_all add: q_def e_def)
  have "v = q * 2 ^ e + r" using div_mult_mod_eq[of v "2 ^ e"] by (simp add: q_def r_def)
  moreover have "r < 2 ^ e" by (simp add: r_def)
  ultimately have "v < q * 2 ^ e + 2 ^ e" by linarith
  also have "\<dots> = (q + 1) * 2 ^ e" by (simp add: algebra_simps)
  also have "\<dots> \<le> 2 ^ 53 * 2 ^ e" using q(2) by (intro mult_right_mono) simp_all
  finally have "v < 2 ^ 53 * 2 ^ e" .
  with assms have "(2::int) ^ 1024 < 2 ^ 53 * 2 ^ e" by (rule order_le_less_trans)
  then have lt: "(2::int) ^ 1024 < 2 ^ (53 + e)" by (simp only: power_add)
  have "(1::int) < 2" by simp
  from power_less_imp_less_exp[OF this lt] have "1024 < 53 + e" .
  then have "972 \<le> e" by simp
  then have "(2::int) ^ 972 \<le> 2 ^ e" by (intro power_increasing) simp_all
  then have "(2::int) ^ 52 * 2 ^ 972 \<le> q * 2 ^ e" using q(1) by (intro mult_mono) simp_all
  moreover have "(2::int) ^ 52 * 2 ^ 972 = 2 ^ 1024" by (simp only: power_add[symmetric]) simp
  moreover have "q \<le> q'" by (simp add: q'_def)
  then have "q * 2 ^ e \<le> q' * 2 ^ e" by (intro mult_right_mono) simp_all
  ultimately have "(2::int) ^ 1024 \<le> q' * 2 ^ e" by linarith
  moreover have "toBinary64 v = (if 2 ^ 1024 \<le> q' * 2 ^ e then PosInfinity else Num (q' * 2 ^ e))"
    by (simp only: toBinary64_def Let_def e_def q_def r_def q'_def)
  ultimately show ?thesis by (simp only: if_True)
qed

lemma parseInt10_digits:
  assumes "ds \<noteq> []" "\<forall>x\<in>set ds. isDigit x"
  shows "parseInt10 ds = toBinary64 (decimalValue ds)"
proof -
  obtain d ds' where ds: "ds = d # ds'" using assms(1) by (cases ds) auto
  then have d: "isDigit d" using assms(2) by simp
  have 1: "dropWhile isStrWhiteSpaceChar ds = ds"
    using ds isDigit_not_space[OF d] by simp
  have 2: "hd ds \<noteq> 0x2B" "hd ds \<noteq> 0x2D" using ds isDigit_not_sign[OF d] by simp_all
  have 3: "takeWhile isDigit ds = ds" using assms(2) by simp
  show ?thesis
    unfolding parseInt10_def 1 Let_def by (simp add: 2 3 assms(1))
qed

section \<open>The log and processDslError\<close>

lemma existingErrors_frame:
  "dslLogFile (snd (existingErrors w)) = dslLogFile w"
  "readable (snd (existingErrors w)) = readable w"
  "writable (snd (existingErrors w)) = writable w"
  "workspaceDsl (snd (existingErrors w)) = workspaceDsl w"
  "maxArguments (snd (existingErrors w)) = maxArguments w"
  unfolding existingErrors_def consoleError_def
  by (auto split: sum.splits)



lemma existingErrors_missing: "dslLogFile w = None \<Longrightarrow> existingErrors w = ([], w)"
  by (simp add: existingErrors_def existsSync_def)

lemma existingErrors_unreadable:
  "dslLogFile w = Some c \<Longrightarrow> \<not> readable w \<Longrightarrow>
     existingErrors w = ([], consoleError (js ''Error reading existing DSL errors:'') ReadError w)"
  by (simp add: existingErrors_def existsSync_def readJson_def readFileSync_def)

lemma existingErrors_invalid:
  "dslLogFile w = Some InvalidJson \<Longrightarrow> readable w \<Longrightarrow>
     existingErrors w = ([], consoleError (js ''Error reading existing DSL errors:'') SyntaxError w)"
  by (simp add: existingErrors_def existsSync_def readJson_def readFileSync_def JSON_parse_def)

lemma consoleLog_frame [simp]:
  "dslLogFile (consoleLog a w) = dslLogFile w"
  "readable (consoleLog a w) = readable w"
  "writable (consoleLog a w) = writable w"
  "workspaceDsl (consoleLog a w) = workspaceDsl w"
  "maxArguments (consoleLog a w) = maxArguments w"
  "console (consoleLog a w) = console w @ [ConsoleLog a]"
  by (simp_all add: consoleLog_def)

lemma consoleError_frame [simp]:
  "dslLogFile (consoleError l e w) = dslLogFile w"
  "readable (consoleError l e w) = readable w"
  "writable (consoleError l e w) = writable w"
  "workspaceDsl (consoleError l e w) = workspaceDsl w"
  "maxArguments (consoleError l e w) = maxArguments w"
  "console (consoleError l e w) = console w @ [ConsoleError l e]"
  by (simp_all add: consoleError_def)

lemma processDslError_None:
  "stringMatch dslErrorRegex errorText = None \<Longrightarrow>
     processDslError now errorText w =
       (Inr None, consoleLog [js ''Could not parse DSL error format'']
                    (consoleLog [js ''Processing DSL error:'', errorText] w))"
  by (simp add: processDslError_def)

lemma processDslError_Some:
  assumes "stringMatch dslErrorRegex errorText = Some (g1, g2, g3, g4)" "writable w"
  shows "\<exists>w'. processDslError now errorText w =
      (Inr (Some \<lparr> timestamp = now, type' = js ''DSL'', message = trim g1, filename = trim g3,
                   line = parseInt10 g2, column = Num 1, context' = trim g4,
                   suggestion = getSuggestionForError (trim g1) (trim g4) \<rparr>), w')
    \<and> dslLogFile w' = Some (Json (JArr (fst (existingErrors (consoleLog [js ''Processing DSL error:'', errorText] w))
          @ [logEntry \<lparr> timestamp = now, type' = js ''DSL'', message = trim g1, filename = trim g3,
                   line = parseInt10 g2, column = Num 1, context' = trim g4,
                   suggestion = getSuggestionForError (trim g1) (trim g4) \<rparr>])))
    \<and> readable w' = readable w \<and> writable w' = writable w \<and> workspaceDsl w' = workspaceDsl w
    \<and> maxArguments w' = maxArguments w
    \<and> set (console (snd (existingErrors (consoleLog [js ''Processing DSL error:'', errorText] w)))) \<subseteq> set (console w')"
proof -
  let ?w1 = "consoleLog [js ''Processing DSL error:'', errorText] w"
  obtain xs w2 where e: "existingErrors ?w1 = (xs, w2)" by (cases "existingErrors ?w1")
  have "writable w2" using existingErrors_frame(3)[of ?w1] e assms(2) by simp
  moreover have "readable w2 = readable w" "workspaceDsl w2 = workspaceDsl w" "maxArguments w2 = maxArguments w"
    using existingErrors_frame(2,4,5)[of ?w1] e by simp_all
  ultimately show ?thesis
    using assms(1,2) e by (auto simp: processDslError_def writeFileSync_def Let_def)
qed

section \<open>The suggestion rules\<close>

lemma suggestions_distinct:
  "dynamicViewSuggestion \<noteq> relationshipSuggestion"
  "dynamicViewSuggestion \<noteq> genericSuggestion"
  "relationshipSuggestion \<noteq> genericSuggestion"
  by (simp_all add: dynamicViewSuggestion_def relationshipSuggestion_def genericSuggestion_def js_def)

text \<open>
  C4: getSuggestionForError is a function of the message and the context alone (it neither
  reads nor changes the world) and is total: for every pair of strings, empty ones included,
  its value is one of three fixed suggestions, which are pairwise different: the one for
  dynamic views, the one for relationships, or the generic one that points to the DSL
  documentation. For two empty strings it is the generic one.
\<close>

theorem getSuggestionForError_total:
  "getSuggestionForError msg ctx \<in> {dynamicViewSuggestion, relationshipSuggestion, genericSuggestion}
   \<and> dynamicViewSuggestion \<noteq> relationshipSuggestion
   \<and> dynamicViewSuggestion \<noteq> genericSuggestion
   \<and> relationshipSuggestion \<noteq> genericSuggestion
   \<and> getSuggestionForError [] [] = genericSuggestion
   \<and> includes' (fix' genericSuggestion) (js ''https://structurizr.com/dsl'')"
proof -
  have "getSuggestionForError msg ctx \<in> {dynamicViewSuggestion, relationshipSuggestion, genericSuggestion}"
    by (simp add: getSuggestionForError_def)
  moreover have "getSuggestionForError [] [] = genericSuggestion"
    by (simp add: getSuggestionForError_def js_def)
  moreover have "includes' (fix' genericSuggestion) (js ''https://structurizr.com/dsl'')"
    by (simp add: genericSuggestion_def js_def startsWith_def)
  ultimately show ?thesis using suggestions_distinct by blast
qed

text \<open>C4 at a message and a context of a dynamic view.\<close>

theorem getSuggestionForError_total_witness:
  "getSuggestionForError (js ''Unexpected tokens'') (js ''dynamic x {'') = dynamicViewSuggestion
   \<and> getSuggestionForError (js ''Unexpected tokens'') (js ''dynamic x {'')
       \<in> {dynamicViewSuggestion, relationshipSuggestion, genericSuggestion}"
proof -
  have "getSuggestionForError (js ''Unexpected tokens'') (js ''dynamic x {'') = dynamicViewSuggestion"
    by (simp add: getSuggestionForError_def js_def startsWith_def)
  then show ?thesis
    using getSuggestionForError_total[of "js ''Unexpected tokens''" "js ''dynamic x {''"] by blast
qed

text \<open>
  C3 as stated fails: the second rule reads the message only. With the message \<open>x\<close> and the
  context \<open>relationship\<close> the first rule does not apply, the context contains
  \<open>relationship\<close>, and the answer is the generic suggestion.
\<close>

theorem getSuggestionForError_ignores_context:
  "\<not> (includes' (js ''x'') (js ''Unexpected tokens'') \<and> includes' (js ''relationship'') (js ''dynamic''))
   \<and> includes' (js ''relationship'') (js ''relationship'')
   \<and> getSuggestionForError (js ''x'') (js ''relationship'') = genericSuggestion
   \<and> getSuggestionForError (js ''x'') (js ''relationship'') \<noteq> relationshipSuggestion"
proof -
  have 1: "\<not> includes' (js ''x'') (js ''Unexpected tokens'')"
    by (simp add: js_def startsWith_def)
  have 2: "includes' (js ''relationship'') (js ''relationship'')"
    by (simp add: js_def startsWith_def)
  have 3: "getSuggestionForError (js ''x'') (js ''relationship'') = genericSuggestion"
    by (simp add: getSuggestionForError_def js_def startsWith_def)
  show ?thesis using 1 2 3 suggestions_distinct(3) by simp
qed

lemma relationship_fix_mentions:
  "includes' (fix' relationshipSuggestion) (js ''<source> -> <destination>'')"
  by (simp add: relationshipSuggestion_def js_def startsWith_def)

text \<open>
  C3, amended: when the first rule does not apply and the message contains
  \<open>Unknown relationship\<close> or \<open>relationship\<close>, the answer is the relationship suggestion, whose
  fix shows the syntax \<open><source> -> <destination>\<close>. The context is not looked at for this rule.
\<close>

theorem getSuggestionForError_relationship:
  assumes "\<not> (includes' msg (js ''Unexpected tokens'') \<and> includes' ctx (js ''dynamic''))"
    and "includes' msg (js ''Unknown relationship'') \<or> includes' msg (js ''relationship'')"
  shows "getSuggestionForError msg ctx = relationshipSuggestion
         \<and> includes' (fix' relationshipSuggestion) (js ''<source> -> <destination>'')"
  using assms relationship_fix_mentions by (auto simp: getSuggestionForError_def)

text \<open>C3, amended, at the message \<open>Unknown relationship\<close> and an empty context.\<close>

theorem getSuggestionForError_relationship_witness:
  "\<not> (includes' (js ''Unknown relationship'') (js ''Unexpected tokens'') \<and> includes' [] (js ''dynamic''))
   \<and> (includes' (js ''Unknown relationship'') (js ''Unknown relationship'')
        \<or> includes' (js ''Unknown relationship'') (js ''relationship''))
   \<and> getSuggestionForError (js ''Unknown relationship'') [] = relationshipSuggestion"
proof -
  have 1: "\<not> (includes' (js ''Unknown relationship'') (js ''Unexpected tokens'') \<and> includes' [] (js ''dynamic''))"
    by (simp add: js_def)
  have 2: "includes' (js ''Unknown relationship'') (js ''Unknown relationship'')
        \<or> includes' (js ''Unknown relationship'') (js ''relationship'')"
    by (simp add: js_def startsWith_def)
  from getSuggestionForError_relationship[OF 1 2] 1 2 show ?thesis by blast
qed

section \<open>Extraction\<close>

lemma processDslError_SomeD:
  assumes "processDslError now errorText w = (Inr (Some d), w')"
  shows "\<exists>g1 g2 g3 g4. stringMatch dslErrorRegex errorText = Some (g1, g2, g3, g4)
     \<and> d = \<lparr> timestamp = now, type' = js ''DSL'', message = trim g1, filename = trim g3,
                   line = parseInt10 g2, column = Num 1, context' = trim g4,
                   suggestion = getSuggestionForError (trim g1) (trim g4) \<rparr>"
proof (cases "stringMatch dslErrorRegex errorText")
  case None
  then show ?thesis using assms by (simp add: processDslError_None)
next
  case (Some g)
  obtain g1 g2 g3 g4 where g: "g = (g1, g2, g3, g4)" by (cases g) auto
  obtain xs w2 where e: "existingErrors (consoleLog [js ''Processing DSL error:'', errorText] w) = (xs, w2)"
    by (cases "existingErrors (consoleLog [js ''Processing DSL error:'', errorText] w)")
  show ?thesis
    using assms Some g e
    by (auto simp: processDslError_def Let_def writeFileSync_def split: if_splits)
qed

text \<open>
  C2: for every text that lacks \<open>workspace.dsl:\<close> or lacks \<open>at line\<close> the pattern does not
  match, processDslError returns \<^verbatim>\<open>null\<close> (no \<^verbatim>\<open>dslError\<close> object is built), and the world
  after the call differs from the world before only by two lines on the console: the log
  file is not written.
\<close>

theorem processDslError_parse_failure:
  assumes "\<not> includes' errorText (js ''workspace.dsl:'') \<or> \<not> includes' errorText (js ''at line'')"
  shows "stringMatch dslErrorRegex errorText = None
       \<and> processDslError now errorText w =
           (Inr None, w\<lparr>console := console w @
              [ConsoleLog [js ''Processing DSL error:'', errorText],
               ConsoleLog [js ''Could not parse DSL error format'']]\<rparr>)
       \<and> dslLogFile (snd (processDslError now errorText w)) = dslLogFile w"
proof -
  have none: "stringMatch dslErrorRegex errorText = None"
  proof (rule ccontr)
    assume "stringMatch dslErrorRegex errorText \<noteq> None"
    then obtain g1 g2 g3 g4 where "stringMatch dslErrorRegex errorText = Some (g1, g2, g3, g4)"
      by auto
    from dslErrorRegex_sound[OF this] obtain pre post where
      t: "errorText = pre @ js ''workspace.dsl: '' @ g1 @ js '' at line '' @ g2 @ js '' of '' @ g3 @ js '':'' @ g4 @ post"
      by blast
    have a: "js ''workspace.dsl: '' = js ''workspace.dsl:'' @ js '' ''"
      and b: "js '' at line '' = js '' '' @ js ''at line'' @ js '' ''"
      by (simp_all add: js_def)
    have "errorText = pre @ js ''workspace.dsl:'' @ (js '' '' @ g1 @ js '' at line '' @ g2 @ js '' of '' @ g3 @ js '':'' @ g4 @ post)"
      using t unfolding a by simp
    then have 1: "includes' errorText (js ''workspace.dsl:'')"
      unfolding includes'_iff by blast
    have "errorText = (pre @ js ''workspace.dsl: '' @ g1 @ js '' '') @ js ''at line'' @ (js '' '' @ g2 @ js '' of '' @ g3 @ js '':'' @ g4 @ post)"
      using t unfolding b by simp
    then have 2: "includes' errorText (js ''at line'')"
      unfolding includes'_iff by blast
    from 1 2 assms show False by blast
  qed
  then show ?thesis
    by (simp add: processDslError_None consoleLog_def)
qed

text \<open>C2 at the text \<open>some random non-matching text\<close>, with a log that holds one entry.\<close>

theorem processDslError_parse_failure_witness:
  "\<not> includes' (js ''some random non-matching text'') (js ''workspace.dsl:'')
   \<and> processDslError (js ''2025-01-01T00:00:00.000Z'') (js ''some random non-matching text'')
        \<lparr> dslLogFile = Some (Json (JArr [JStr (js ''kept'')])), readable = True, writable = True,
          workspaceDsl = None, console = [], maxArguments = 125000 \<rparr>
      = (Inr None,
         \<lparr> dslLogFile = Some (Json (JArr [JStr (js ''kept'')])), readable = True, writable = True,
           workspaceDsl = None,
           console = [ConsoleLog [js ''Processing DSL error:'', js ''some random non-matching text''],
                      ConsoleLog [js ''Could not parse DSL error format'']],
           maxArguments = 125000 \<rparr>)"
proof -
  have h: "\<not> includes' (js ''some random non-matching text'') (js ''workspace.dsl:'')"
    by (simp add: js_def startsWith_def)
  then have "\<not> includes' (js ''some random non-matching text'') (js ''workspace.dsl:'')
      \<or> \<not> includes' (js ''some random non-matching text'') (js ''at line'')" by blast
  from processDslError_parse_failure[OF this] h show ?thesis by simp
qed

text \<open>
  C1, amended: for every text of the shape
  \<^verbatim>\<open>workspace.dsl: <message> at line <N> of <filePath>:<context>\<close> (anywhere in the text; the
  message without line terminator, \<open>N\<close> one or more digits, the path not empty and without
  colon), when the log file can be written, the pattern matches and processDslError returns
  a \<^verbatim>\<open>dslError\<close> whose message, filename and context are the first, third and fourth group,
  each trimmed on its own, and whose column is 1. The second group is a non-empty run of
  digits, and the line is the Number value for its decimal value: that value itself whenever
  it is at most \<open>2^53\<close>, its rounding to binary64 above, and \<^verbatim>\<open>Infinity\<close> from \<open>2^1024\<close> on. So
  the line is \<^verbatim>\<open>Infinity\<close> or an integer that is not negative, and it is 0 exactly when every
  digit is \<open>0\<close>. When the text starts with \<open>workspace.dsl: \<close> and \<open> at line \<close> does not occur in
  the message followed by \<open> at line\<close>, the groups are the message, \<open>N\<close>, the path, and the
  context up to its first line terminator.
\<close>

theorem processDslError_extracts:
  assumes shape: "errorText = pre @ js ''workspace.dsl: '' @ m @ js '' at line '' @ n @ js '' of '' @ f @ js '':'' @ c"
    and m: "\<forall>x\<in>set m. \<not> isLineTerminator x"
    and n: "n \<noteq> []" "\<forall>x\<in>set n. isDigit x"
    and f: "f \<noteq> []" "0x3A \<notin> set f"
    and w: "writable w"
  shows "\<exists>errorMessage lineNumber filePath errorContext d w'.
      stringMatch dslErrorRegex errorText = Some (errorMessage, lineNumber, filePath, errorContext)
    \<and> processDslError now errorText w = (Inr (Some d), w')
    \<and> message d = trim errorMessage \<and> filename d = trim filePath \<and> context' d = trim errorContext
    \<and> lineNumber \<noteq> [] \<and> (\<forall>x\<in>set lineNumber. isDigit x)
    \<and> line d = toBinary64 (decimalValue lineNumber)
    \<and> (decimalValue lineNumber \<le> 2 ^ 53 \<longrightarrow> line d = Num (decimalValue lineNumber))
    \<and> (2 ^ 1024 \<le> decimalValue lineNumber \<longrightarrow> line d = PosInfinity)
    \<and> (line d = PosInfinity \<or> (\<exists>k. line d = Num k \<and> 0 \<le> k))
    \<and> (line d = Num 0 \<longleftrightarrow> set lineNumber \<subseteq> {0x30})
    \<and> column d = Num 1
    \<and> (pre = [] \<and> \<not> includes' (m @ js '' at line'') (js '' at line '') \<longrightarrow>
         errorMessage = m \<and> lineNumber = n \<and> filePath = f
         \<and> errorContext = takeWhile (\<lambda>x. \<not> isLineTerminator x) c)"
proof -
  have "stringMatch dslErrorRegex errorText \<noteq> None"
    unfolding shape using m n f by (rule dslErrorRegex_complete)
  then obtain g1 g2 g3 g4 where g: "stringMatch dslErrorRegex errorText = Some (g1, g2, g3, g4)"
    by auto
  from dslErrorRegex_sound[OF g] have d: "g2 \<noteq> []" "\<forall>x\<in>set g2. isDigit x" by auto
  from processDslError_Some[OF g w, of now] obtain w' where
    p: "processDslError now errorText w =
      (Inr (Some \<lparr> timestamp = now, type' = js ''DSL'', message = trim g1, filename = trim g3,
                   line = parseInt10 g2, column = Num 1, context' = trim g4,
                   suggestion = getSuggestionForError (trim g1) (trim g4) \<rparr>), w')"
    by blast
  have exact: "pre = [] \<and> \<not> includes' (m @ js '' at line'') (js '' at line '') \<longrightarrow>
         g1 = m \<and> g2 = n \<and> g3 = f \<and> g4 = takeWhile (\<lambda>x. \<not> isLineTerminator x) c"
  proof
    assume a: "pre = [] \<and> \<not> includes' (m @ js '' at line'') (js '' at line '')"
    then have "stringMatch dslErrorRegex errorText = Some (m, n, f, takeWhile (\<lambda>x. \<not> isLineTerminator x) c)"
      unfolding shape using dslErrorRegex_exact[OF m _ n f, of c] by simp
    with g show "g1 = m \<and> g2 = n \<and> g3 = f \<and> g4 = takeWhile (\<lambda>x. \<not> isLineTerminator x) c"
      by simp
  qed
  let ?v = "decimalValue g2"
  have v: "0 \<le> ?v" using d(2) by (rule decimalValue_nonneg)
  have l: "parseInt10 g2 = toBinary64 ?v" using d by (rule parseInt10_digits)
  have l1: "?v \<le> 2 ^ 53 \<longrightarrow> toBinary64 ?v = Num ?v" using v toBinary64_exact by blast
  have l2: "2 ^ 1024 \<le> ?v \<longrightarrow> toBinary64 ?v = PosInfinity" using toBinary64_Infinity by blast
  have l3: "toBinary64 ?v = PosInfinity \<or> (\<exists>k. toBinary64 ?v = Num k \<and> 0 \<le> k)"
    using toBinary64_cases[OF v] by blast
  have l4: "toBinary64 ?v = Num 0 \<longleftrightarrow> set g2 \<subseteq> {0x30}"
    using toBinary64_cases[OF v] decimalValue_zero[OF d(2)] toBinary64_exact[of 0] by auto
  show ?thesis
    apply (rule exI[of _ g1], rule exI[of _ g2], rule exI[of _ g3], rule exI[of _ g4])
    apply (rule exI[of _ "\<lparr> timestamp = now, type' = js ''DSL'', message = trim g1, filename = trim g3,
                   line = parseInt10 g2, column = Num 1, context' = trim g4,
                   suggestion = getSuggestionForError (trim g1) (trim g4) \<rparr>"], rule exI[of _ w'])
    using g p d exact l1 l2 l3 l4 unfolding l
    by simp
qed

lemma short_digits:
  "decimalValue (js ''0'') = 0" "decimalValue (js ''1'') = 1" "decimalValue (js ''2'') = 2"
  "decimalValue (js ''3'') = 3" "decimalValue (js ''012'') = 12" "decimalValue (js ''776'') = 776"
  "decimalValue (js ''9007199254740993'') = 9007199254740993"
  by (simp_all add: js_def decimalValue_def digitValue_def)

lemma parseInt10_short:
  "parseInt10 (js ''0'') = Num 0" "parseInt10 (js ''1'') = Num 1" "parseInt10 (js ''2'') = Num 2"
  "parseInt10 (js ''3'') = Num 3" "parseInt10 (js ''012'') = Num 12" "parseInt10 (js ''776'') = Num 776"
proof -
  have d: "parseInt10 (js s) = toBinary64 (decimalValue (js s))"
    if "s \<in> {''0'', ''1'', ''2'', ''3'', ''012'', ''776''}" for s
    using that by (intro parseInt10_digits) (auto simp: js_def isDigit_def)
  show "parseInt10 (js ''0'') = Num 0" "parseInt10 (js ''1'') = Num 1" "parseInt10 (js ''2'') = Num 2"
    "parseInt10 (js ''3'') = Num 3" "parseInt10 (js ''012'') = Num 12" "parseInt10 (js ''776'') = Num 776"
    by (simp_all add: d short_digits toBinary64_exact)
qed

lemma parseInt10_rounds: "parseInt10 (js ''9007199254740993'') = Num 9007199254740992"
proof -
  have "js ''9007199254740993'' \<noteq> []" "\<forall>x\<in>set (js ''9007199254740993''). isDigit x"
    by (simp_all add: js_def isDigit_def)
  then have "parseInt10 (js ''9007199254740993'') = toBinary64 9007199254740993"
    by (simp add: parseInt10_digits short_digits)
  also have "\<dots> = Num 9007199254740992"
    by (simp add: toBinary64_def shiftCount.simps Let_def)
  finally show ?thesis .
qed

text \<open>
  C1 as stated fails twice. The line need not be positive: the text
  \<open>workspace.dsl: x at line 0 of f:c\<close> matches, with the digits \<open>0\<close> as the second group, and the
  returned line is 0. And the line need not be the decimal value of the digits: in
  \<open>workspace.dsl: x at line 9007199254740993 of f:c\<close> the second group denotes \<open>2^53 + 1\<close>, which
  binary64 does not hold, and the returned line is \<open>2^53\<close>.
\<close>

theorem processDslError_line_zero_or_rounded:
  "stringMatch dslErrorRegex (js ''workspace.dsl: x at line 0 of f:c'') = Some (js ''x'', js ''0'', js ''f'', js ''c'')
   \<and> (case fst (processDslError (js ''2025-01-01T00:00:00.000Z'') (js ''workspace.dsl: x at line 0 of f:c'')
          \<lparr> dslLogFile = None, readable = True, writable = True, workspaceDsl = None, console = [],
            maxArguments = 125000 \<rparr>) of
        Inr (Some d) \<Rightarrow> line d = Num 0
      | _ \<Rightarrow> False)
   \<and> stringMatch dslErrorRegex (js ''workspace.dsl: x at line 9007199254740993 of f:c'')
       = Some (js ''x'', js ''9007199254740993'', js ''f'', js ''c'')
   \<and> decimalValue (js ''9007199254740993'') = 9007199254740993
   \<and> (case fst (processDslError (js ''2025-01-01T00:00:00.000Z'')
                 (js ''workspace.dsl: x at line 9007199254740993 of f:c'')
          \<lparr> dslLogFile = None, readable = True, writable = True, workspaceDsl = None, console = [],
            maxArguments = 125000 \<rparr>) of
        Inr (Some d) \<Rightarrow> line d = Num 9007199254740992
      | _ \<Rightarrow> False)"
proof -
  let ?w = "\<lparr> dslLogFile = None, readable = True, writable = True, workspaceDsl = None, console = [],
            maxArguments = 125000 \<rparr>"
  have g0: "stringMatch dslErrorRegex (js ''workspace.dsl: x at line 0 of f:c'') = Some (js ''x'', js ''0'', js ''f'', js ''c'')"
    by (simp add: js_def dslErrorRegex_def lit_def startsWith_def greedyPlus_def isDigit_def isLineTerminator_def)
  have g1: "stringMatch dslErrorRegex (js ''workspace.dsl: x at line 9007199254740993 of f:c'')
       = Some (js ''x'', js ''9007199254740993'', js ''f'', js ''c'')"
    by (simp add: js_def dslErrorRegex_def lit_def startsWith_def greedyPlus_def isDigit_def isLineTerminator_def)
  have w: "writable ?w" by simp
  from processDslError_Some[OF g0 w, of "js ''2025-01-01T00:00:00.000Z''"]
  have 0: "case fst (processDslError (js ''2025-01-01T00:00:00.000Z'') (js ''workspace.dsl: x at line 0 of f:c'') ?w) of
        Inr (Some d) \<Rightarrow> line d = Num 0
      | _ \<Rightarrow> False"
    by (auto simp: parseInt10_short)
  from processDslError_Some[OF g1 w, of "js ''2025-01-01T00:00:00.000Z''"]
  have 1: "case fst (processDslError (js ''2025-01-01T00:00:00.000Z'')
                 (js ''workspace.dsl: x at line 9007199254740993 of f:c'') ?w) of
        Inr (Some d) \<Rightarrow> line d = Num 9007199254740992
      | _ \<Rightarrow> False"
    by (auto simp: parseInt10_rounds)
  from g0 0 g1 1 short_digits(7) show ?thesis by blast
qed

text \<open>C1, amended, at a text with blanks around every group and a leading zero in the line.\<close>

theorem processDslError_extracts_witness:
  "\<exists>d w'. processDslError (js ''2025-01-01T00:00:00.000Z'')
             (js ''workspace.dsl:  bad token  at line 012 of  /w.dsl : x -> y '')
             \<lparr> dslLogFile = None, readable = True, writable = True, workspaceDsl = None, console = [],
               maxArguments = 125000 \<rparr>
           = (Inr (Some d), w')
     \<and> message d = js ''bad token'' \<and> filename d = js ''/w.dsl'' \<and> context' d = js ''x -> y''
     \<and> line d = Num 12 \<and> column d = Num 1"
proof -
  let ?t = "js ''workspace.dsl:  bad token  at line 012 of  /w.dsl : x -> y ''"
  let ?w = "\<lparr> dslLogFile = None, readable = True, writable = True, workspaceDsl = None, console = [],
               maxArguments = 125000 \<rparr>"
  have shape: "?t = [] @ js ''workspace.dsl: '' @ js '' bad token '' @ js '' at line '' @ js ''012''
                  @ js '' of '' @ js '' /w.dsl '' @ js '':'' @ js '' x -> y ''"
    by (simp add: js_def)
  have m: "\<forall>x\<in>set (js '' bad token ''). \<not> isLineTerminator x"
    by (simp add: js_def isLineTerminator_def)
  have n: "js ''012'' \<noteq> []" "\<forall>x\<in>set (js ''012''). isDigit x"
    by (simp_all add: js_def isDigit_def)
  have f: "js '' /w.dsl '' \<noteq> []" "0x3A \<notin> set (js '' /w.dsl '')"
    by (simp_all add: js_def)
  have w: "writable ?w" by simp
  have u: "\<not> includes' (js '' bad token '' @ js '' at line'') (js '' at line '')"
    by (simp add: js_def startsWith_def)
  have small: "decimalValue (js ''012'') \<le> 2 ^ 53" by (simp add: short_digits)
  from processDslError_extracts[OF shape m n f w, of "js ''2025-01-01T00:00:00.000Z''"] u small
  obtain d w' where
    p: "processDslError (js ''2025-01-01T00:00:00.000Z'') ?t ?w = (Inr (Some d), w')"
    and d: "message d = trim (js '' bad token '')" "filename d = trim (js '' /w.dsl '')"
      "context' d = trim (takeWhile (\<lambda>x. \<not> isLineTerminator x) (js '' x -> y ''))"
      "line d = Num (decimalValue (js ''012''))"
      "column d = Num 1"
    by auto
  have 1: "trim (js '' bad token '') = js ''bad token''"
    by (simp add: js_def trim_def isStrWhiteSpaceChar_def isWhiteSpace_def isLineTerminator_def)
  have 2: "trim (js '' /w.dsl '') = js ''/w.dsl''"
    by (simp add: js_def trim_def isStrWhiteSpaceChar_def isWhiteSpace_def isLineTerminator_def)
  have 3: "trim (takeWhile (\<lambda>x. \<not> isLineTerminator x) (js '' x -> y '')) = js ''x -> y''"
    by (simp add: js_def trim_def isStrWhiteSpaceChar_def isWhiteSpace_def isLineTerminator_def)
  from p d show ?thesis unfolding 1 2 3 short_digits by simp
qed

lemma scenario1_match:
  "stringMatch dslErrorRegex
     (js (''workspace.dsl: Unexpected tokens (expected: include, exclude, autolayout, default, animation, title, description, properties) at line 776 of /usr/local/structurizr/workspace.dsl: dynamic ''
          @ [CHR 0x22] @ ''ErrorHandlingFlow'' @ [CHR 0x22] @ '' {''))
   = Some (js ''Unexpected tokens (expected: include, exclude, autolayout, default, animation, title, description, properties)'',
           js ''776'', js ''/usr/local/structurizr/workspace.dsl'',
           js ('' dynamic '' @ [CHR 0x22] @ ''ErrorHandlingFlow'' @ [CHR 0x22] @ '' {''))"
proof -
  let ?m = "js ''Unexpected tokens (expected: include, exclude, autolayout, default, animation, title, description, properties)''"
  let ?c = "js ('' dynamic '' @ [CHR 0x22] @ ''ErrorHandlingFlow'' @ [CHR 0x22] @ '' {'')"
  have shape: "js (''workspace.dsl: Unexpected tokens (expected: include, exclude, autolayout, default, animation, title, description, properties) at line 776 of /usr/local/structurizr/workspace.dsl: dynamic ''
          @ [CHR 0x22] @ ''ErrorHandlingFlow'' @ [CHR 0x22] @ '' {'')
      = js ''workspace.dsl: '' @ ?m @ js '' at line '' @ js ''776'' @ js '' of ''
          @ js ''/usr/local/structurizr/workspace.dsl'' @ js '':'' @ ?c"
    by (simp add: js_def)
  have m: "\<forall>x\<in>set ?m. \<not> isLineTerminator x"
    by (simp add: js_def isLineTerminator_def)
  have u: "\<not> includes' (?m @ js '' at line'') (js '' at line '')"
    by (simp add: js_def startsWith_def)
  have n: "js ''776'' \<noteq> []" "\<forall>x\<in>set (js ''776''). isDigit x"
    by (simp_all add: js_def isDigit_def)
  have f: "js ''/usr/local/structurizr/workspace.dsl'' \<noteq> []" "0x3A \<notin> set (js ''/usr/local/structurizr/workspace.dsl'')"
    by (simp_all add: js_def)
  have c: "takeWhile (\<lambda>x. \<not> isLineTerminator x) ?c = ?c"
    by (simp add: js_def isLineTerminator_def)
  show ?thesis
    unfolding shape using dslErrorRegex_exact[OF m u n f, of ?c] unfolding c .
qed

text \<open>
  C5: on the text of scenario 1, when the log file can be written, processDslError returns a
  \<^verbatim>\<open>dslError\<close> with line 776, filename \<open>/usr/local/structurizr/workspace.dsl\<close>, a message
  that starts with \<open>Unexpected tokens\<close>, and the suggestion for dynamic views, whose issue
  contains \<open>dynamic view syntax is incorrect\<close>.
\<close>

theorem processDslError_scenario1:
  assumes "writable w"
  shows "\<exists>d w'. processDslError now
     (js (''workspace.dsl: Unexpected tokens (expected: include, exclude, autolayout, default, animation, title, description, properties) at line 776 of /usr/local/structurizr/workspace.dsl: dynamic ''
          @ [CHR 0x22] @ ''ErrorHandlingFlow'' @ [CHR 0x22] @ '' {'')) w = (Inr (Some d), w')
     \<and> line d = Num 776
     \<and> filename d = js ''/usr/local/structurizr/workspace.dsl''
     \<and> startsWith (message d) (js ''Unexpected tokens'')
     \<and> suggestion d = dynamicViewSuggestion
     \<and> includes' (issue (suggestion d)) (js ''dynamic view syntax is incorrect'')"
proof -
  let ?m = "js ''Unexpected tokens (expected: include, exclude, autolayout, default, animation, title, description, properties)''"
  let ?c = "js ('' dynamic '' @ [CHR 0x22] @ ''ErrorHandlingFlow'' @ [CHR 0x22] @ '' {'')"
  have 1: "trim ?m = ?m"
    by (simp add: js_def trim_def isStrWhiteSpaceChar_def isWhiteSpace_def isLineTerminator_def)
  have 2: "trim (js ''/usr/local/structurizr/workspace.dsl'') = js ''/usr/local/structurizr/workspace.dsl''"
    by (simp add: js_def trim_def isStrWhiteSpaceChar_def isWhiteSpace_def isLineTerminator_def)
  have 3: "trim ?c = js (''dynamic '' @ [CHR 0x22] @ ''ErrorHandlingFlow'' @ [CHR 0x22] @ '' {'')"
    by (simp add: js_def trim_def isStrWhiteSpaceChar_def isWhiteSpace_def isLineTerminator_def)
  have 4: "parseInt10 (js ''776'') = Num 776"
    by (rule parseInt10_short)
  have 5: "startsWith ?m (js ''Unexpected tokens'')"
    by (simp add: js_def startsWith_def)
  have 6: "getSuggestionForError ?m (js (''dynamic '' @ [CHR 0x22] @ ''ErrorHandlingFlow'' @ [CHR 0x22] @ '' {'')) = dynamicViewSuggestion"
    by (simp add: getSuggestionForError_def js_def startsWith_def)
  have 7: "includes' (issue dynamicViewSuggestion) (js ''dynamic view syntax is incorrect'')"
    by (simp add: dynamicViewSuggestion_def js_def startsWith_def)
  from processDslError_Some[OF scenario1_match assms, of now]
  show ?thesis unfolding 1 2 3 4 6 using 5 7 by auto
qed

text \<open>C5 with an empty log.\<close>

theorem processDslError_scenario1_witness:
  "\<exists>d w'. processDslError (js ''2025-01-01T00:00:00.000Z'')
     (js (''workspace.dsl: Unexpected tokens (expected: include, exclude, autolayout, default, animation, title, description, properties) at line 776 of /usr/local/structurizr/workspace.dsl: dynamic ''
          @ [CHR 0x22] @ ''ErrorHandlingFlow'' @ [CHR 0x22] @ '' {''))
     \<lparr> dslLogFile = Some (Json (JArr [])), readable = True, writable = True, workspaceDsl = None, console = [], maxArguments = 125000 \<rparr>
       = (Inr (Some d), w')
     \<and> line d = Num 776
     \<and> filename d = js ''/usr/local/structurizr/workspace.dsl''
     \<and> startsWith (message d) (js ''Unexpected tokens'')
     \<and> includes' (issue (suggestion d)) (js ''dynamic view syntax is incorrect'')"
proof -
  have "writable \<lparr> dslLogFile = Some (Json (JArr [])), readable = True, writable = True, workspaceDsl = None, console = [], maxArguments = 125000 \<rparr>"
    by simp
  from processDslError_scenario1[OF this, of "js ''2025-01-01T00:00:00.000Z''"]
  show ?thesis by blast
qed

text \<open>
  C10: whenever processDslError returns a \<^verbatim>\<open>dslError\<close>, its filename contains no colon; and
  when the text is \<open>workspace.dsl: m at line n of p:rest\<close>, with \<open>p\<close> not empty and without
  colon (so that a reported path with a colon in it is \<open>p\<close>, the colon, and the beginning of
  \<open>rest\<close>), the filename is \<open>p\<close> trimmed: the part of the path before its first colon.
\<close>

theorem processDslError_file_no_colon:
  assumes "processDslError now errorText w = (Inr (Some d), w')"
  shows "0x3A \<notin> set (filename d)
     \<and> (\<forall>m n p rest.
           errorText = js ''workspace.dsl: '' @ m @ js '' at line '' @ n @ js '' of '' @ p @ js '':'' @ rest
           \<and> (\<forall>x\<in>set m. \<not> isLineTerminator x) \<and> \<not> includes' (m @ js '' at line'') (js '' at line '')
           \<and> n \<noteq> [] \<and> (\<forall>x\<in>set n. isDigit x) \<and> p \<noteq> [] \<and> 0x3A \<notin> set p
           \<longrightarrow> filename d = trim p)"
proof -
  from processDslError_SomeD[OF assms] obtain g1 g2 g3 g4 where
    g: "stringMatch dslErrorRegex errorText = Some (g1, g2, g3, g4)"
    and d: "filename d = trim g3" by auto
  from dslErrorRegex_sound[OF g] have "0x3A \<notin> set g3" by auto
  then have 1: "0x3A \<notin> set (filename d)" using d set_trim[of g3] by auto
  have 2: "filename d = trim p"
    if "errorText = js ''workspace.dsl: '' @ m @ js '' at line '' @ n @ js '' of '' @ p @ js '':'' @ rest"
      and "\<forall>x\<in>set m. \<not> isLineTerminator x" "\<not> includes' (m @ js '' at line'') (js '' at line '')"
      and "n \<noteq> []" "\<forall>x\<in>set n. isDigit x" "p \<noteq> []" "0x3A \<notin> set p"
    for m n p rest
    using dslErrorRegex_exact[OF that(2-7), of rest] g d unfolding that(1) by simp
  from 1 2 show ?thesis by blast
qed

text \<open>C10 at a path with a drive letter: the filename is \<open>C\<close>, and the rest of the path is in the context.\<close>

theorem processDslError_file_no_colon_witness:
  "\<exists>d w'. processDslError (js ''2025-01-01T00:00:00.000Z'')
             (js ''workspace.dsl: Unexpected tokens at line 5 of C:/dsl/workspace.dsl: model {'')
             \<lparr> dslLogFile = None, readable = True, writable = True, workspaceDsl = None, console = [], maxArguments = 125000 \<rparr>
           = (Inr (Some d), w')
     \<and> filename d = js ''C'' \<and> 0x3A \<notin> set (filename d)
     \<and> context' d = js ''/dsl/workspace.dsl: model {''"
proof -
  let ?t = "js ''workspace.dsl: Unexpected tokens at line 5 of C:/dsl/workspace.dsl: model {''"
  let ?w = "\<lparr> dslLogFile = None, readable = True, writable = True, workspaceDsl = None, console = [], maxArguments = 125000 \<rparr>"
  have shape: "?t = js ''workspace.dsl: '' @ js ''Unexpected tokens'' @ js '' at line '' @ js ''5''
                  @ js '' of '' @ js ''C'' @ js '':'' @ js ''/dsl/workspace.dsl: model {''"
    by (simp add: js_def)
  have m: "\<forall>x\<in>set (js ''Unexpected tokens''). \<not> isLineTerminator x"
    by (simp add: js_def isLineTerminator_def)
  have u: "\<not> includes' (js ''Unexpected tokens'' @ js '' at line'') (js '' at line '')"
    by (simp add: js_def startsWith_def)
  have n: "js ''5'' \<noteq> []" "\<forall>x\<in>set (js ''5''). isDigit x"
    by (simp_all add: js_def isDigit_def)
  have f: "js ''C'' \<noteq> []" "0x3A \<notin> set (js ''C'')"
    by (simp_all add: js_def)
  have c: "takeWhile (\<lambda>x. \<not> isLineTerminator x) (js ''/dsl/workspace.dsl: model {'') = js ''/dsl/workspace.dsl: model {''"
    by (simp add: js_def isLineTerminator_def)
  have g: "stringMatch dslErrorRegex ?t = Some (js ''Unexpected tokens'', js ''5'', js ''C'', js ''/dsl/workspace.dsl: model {'')"
    unfolding shape using dslErrorRegex_exact[OF m u n f, of "js ''/dsl/workspace.dsl: model {''"] unfolding c .
  have w: "writable ?w" by simp
  from processDslError_Some[OF g w, of "js ''2025-01-01T00:00:00.000Z''"] obtain d w' where
    p: "processDslError (js ''2025-01-01T00:00:00.000Z'') ?t ?w = (Inr (Some d), w')"
    and c': "context' d = trim (js ''/dsl/workspace.dsl: model {'')"
    by auto
  have 1: "trim (js ''C'') = js ''C''"
    by (simp add: js_def trim_def isStrWhiteSpaceChar_def isWhiteSpace_def isLineTerminator_def)
  have 2: "trim (js ''/dsl/workspace.dsl: model {'') = js ''/dsl/workspace.dsl: model {''"
    by (simp add: js_def trim_def isStrWhiteSpaceChar_def isWhiteSpace_def isLineTerminator_def)
  from processDslError_file_no_colon[OF p] shape m u n f
  have "0x3A \<notin> set (filename d)" "filename d = trim (js ''C'')" by blast+
  with p c' show ?thesis unfolding 1 2 by blast
qed

section \<open>The tools\<close>







lemma short_match:
  "stringMatch dslErrorRegex (js ''workspace.dsl: x at line 1 of f:c'') = Some (js ''x'', js ''1'', js ''f'', js ''c'')"
  "stringMatch dslErrorRegex (js ''workspace.dsl: x at line 2 of f:c'') = Some (js ''x'', js ''2'', js ''f'', js ''c'')"
  "stringMatch dslErrorRegex (js ''workspace.dsl: x at line 3 of f:c'') = Some (js ''x'', js ''3'', js ''f'', js ''c'')"
  by (simp_all add: js_def dslErrorRegex_def lit_def startsWith_def greedyPlus_def isDigit_def isLineTerminator_def)




text \<open>
  C7, amended: when the log file is missing, cannot be read, or holds no JSON, and the text
  matches and the write succeeds, processDslError returns the \<^verbatim>\<open>dslError\<close> and the log file
  then holds exactly one entry, the one of this \<^verbatim>\<open>dslError\<close>. When the file is there, what it
  held is dropped and the console carries the error line \<open>Error reading existing DSL errors:\<close>
  between the two lines of every successful call; when the file is missing, nothing is dropped
  and no line is added.
\<close>

theorem processDslError_corrupt_log:
  assumes "stringMatch dslErrorRegex errorText \<noteq> None" "writable w"
    and "dslLogFile w = None \<or> \<not> readable w \<or> dslLogFile w = Some InvalidJson"
  shows "\<exists>d w'. processDslError now errorText w = (Inr (Some d), w')
     \<and> dslLogFile w' = Some (Json (JArr [logEntry d]))
     \<and> console w' = console w
          @ [ConsoleLog [js ''Processing DSL error:'', errorText]]
          @ (case dslLogFile w of
               None \<Rightarrow> []
             | Some c \<Rightarrow> [ConsoleError (js ''Error reading existing DSL errors:'')
                            (if readable w then SyntaxError else ReadError)])
          @ [ConsoleLog [js ''DSL error processed and saved'']]"
proof -
  let ?w1 = "consoleLog [js ''Processing DSL error:'', errorText] w"
  from assms(1) obtain g1 g2 g3 g4 where
    g: "stringMatch dslErrorRegex errorText = Some (g1, g2, g3, g4)" by auto
  have e: "existingErrors ?w1 = ([],
     (case dslLogFile w of
        None \<Rightarrow> ?w1
      | Some c \<Rightarrow> consoleError (js ''Error reading existing DSL errors:'')
                            (if readable w then SyntaxError else ReadError) ?w1))"
  proof (cases "dslLogFile w")
    case None
    then show ?thesis by (simp add: existingErrors_missing)
  next
    case (Some c)
    show ?thesis
    proof (cases "readable w")
      case False
      then show ?thesis using Some existingErrors_unreadable[of ?w1 c] by simp
    next
      case True
      with Some assms(3) have "dslLogFile ?w1 = Some InvalidJson" "readable ?w1" by simp_all
      from existingErrors_invalid[OF this] show ?thesis using Some True by simp
    qed
  qed
  show ?thesis
    using g assms(2) e
    by (auto simp: processDslError_def Let_def writeFileSync_def split: option.splits)
qed

text \<open>
  C7 as stated fails for a missing file: nothing is surfaced then. With no log file and a
  text that matches, processDslError writes the one new entry, and the console carries only the
  two lines of every successful call; there is no warning about the missing file.
\<close>

theorem processDslError_missing_log_silent:
  "(case processDslError (js ''2025-01-01T00:00:01.000Z'') (js ''workspace.dsl: x at line 1 of f:c'')
          \<lparr> dslLogFile = None, readable = True, writable = True, workspaceDsl = None, console = [],
            maxArguments = 125000 \<rparr> of
      (Inr (Some d), w') \<Rightarrow>
        dslLogFile w' = Some (Json (JArr [logEntry d]))
        \<and> console w' = [ConsoleLog [js ''Processing DSL error:'', js ''workspace.dsl: x at line 1 of f:c''],
                         ConsoleLog [js ''DSL error processed and saved'']]
    | _ \<Rightarrow> False)"
  by (simp add: processDslError_def short_match Let_def existingErrors_def existsSync_def
      writeFileSync_def consoleLog_def)

text \<open>
  C7, amended, at a log file that holds no JSON and at one that cannot be read: in both the
  console carries the error line.
\<close>

theorem processDslError_corrupt_log_witness:
  "(\<exists>d w'. processDslError (js ''2025-01-01T00:00:01.000Z'') (js ''workspace.dsl: x at line 1 of f:c'')
        \<lparr> dslLogFile = Some InvalidJson, readable = True, writable = True, workspaceDsl = None,
          console = [], maxArguments = 125000 \<rparr>
        = (Inr (Some d), w')
     \<and> dslLogFile w' = Some (Json (JArr [logEntry d]))
     \<and> console w' = [ConsoleLog [js ''Processing DSL error:'', js ''workspace.dsl: x at line 1 of f:c''],
                      ConsoleError (js ''Error reading existing DSL errors:'') SyntaxError,
                      ConsoleLog [js ''DSL error processed and saved'']])
   \<and> (\<exists>d w'. processDslError (js ''2025-01-01T00:00:01.000Z'') (js ''workspace.dsl: x at line 1 of f:c'')
        \<lparr> dslLogFile = Some (Json (JArr [JStr (js ''old'')])), readable = False, writable = True,
          workspaceDsl = None, console = [], maxArguments = 125000 \<rparr>
        = (Inr (Some d), w')
     \<and> dslLogFile w' = Some (Json (JArr [logEntry d]))
     \<and> console w' = [ConsoleLog [js ''Processing DSL error:'', js ''workspace.dsl: x at line 1 of f:c''],
                      ConsoleError (js ''Error reading existing DSL errors:'') ReadError,
                      ConsoleLog [js ''DSL error processed and saved'']])"
proof -
  let ?w = "\<lparr> dslLogFile = Some InvalidJson, readable = True, writable = True, workspaceDsl = None,
          console = [], maxArguments = 125000 \<rparr>"
  let ?u = "\<lparr> dslLogFile = Some (Json (JArr [JStr (js ''old'')])), readable = False, writable = True,
          workspaceDsl = None, console = [], maxArguments = 125000 \<rparr>"
  have a: "stringMatch dslErrorRegex (js ''workspace.dsl: x at line 1 of f:c'') \<noteq> None" "writable ?w"
    "dslLogFile ?w = None \<or> \<not> readable ?w \<or> dslLogFile ?w = Some InvalidJson"
    by (simp_all add: short_match)
  have b: "writable ?u" "dslLogFile ?u = None \<or> \<not> readable ?u \<or> dslLogFile ?u = Some InvalidJson"
    by simp_all
  from processDslError_corrupt_log[OF a, of "js ''2025-01-01T00:00:01.000Z''"]
    processDslError_corrupt_log[OF a(1) b, of "js ''2025-01-01T00:00:01.000Z''"]
  show ?thesis by simp
qed

text \<open>
  C8: whatever the log file holds (or when it is missing), when the write succeeds
  clearDslErrors leaves the log file holding the empty array and changes nothing else; a second
  call on the result answers the same and leaves the world as it is. Reading the cleared log
  with getDslErrors finds no errors.
\<close>

theorem clearDslErrors_idempotent:
  assumes "writable w"
  shows "clearDslErrors w = (Cleared, w\<lparr>dslLogFile := Some (Json (JArr []))\<rparr>)
     \<and> clearDslErrors (w\<lparr>dslLogFile := Some (Json (JArr []))\<rparr>)
          = (Cleared, w\<lparr>dslLogFile := Some (Json (JArr []))\<rparr>)
     \<and> (readable w \<longrightarrow>
          getDslErrorsTool None (w\<lparr>dslLogFile := Some (Json (JArr []))\<rparr>)
            = (NoErrorsFound, w\<lparr>dslLogFile := Some (Json (JArr []))\<rparr>))"
  using assms
  by (simp add: clearDslErrors_def writeFileSync_def getDslErrorsTool_def getDslErrors_def readJson_def
      readFileSync_def JSON_parse_def slice_def)

text \<open>C8 at a log with one entry.\<close>

theorem clearDslErrors_idempotent_witness:
  "clearDslErrors \<lparr> dslLogFile = Some (Json (JArr [JStr (js ''old'')])), readable = True, writable = True,
                     workspaceDsl = None, console = [], maxArguments = 125000 \<rparr>
     = (Cleared, \<lparr> dslLogFile = Some (Json (JArr [])), readable = True, writable = True,
                   workspaceDsl = None, console = [], maxArguments = 125000 \<rparr>)
   \<and> clearDslErrors \<lparr> dslLogFile = Some (Json (JArr [])), readable = True, writable = True,
                     workspaceDsl = None, console = [], maxArguments = 125000 \<rparr>
     = (Cleared, \<lparr> dslLogFile = Some (Json (JArr [])), readable = True, writable = True,
                   workspaceDsl = None, console = [], maxArguments = 125000 \<rparr>)"
proof -
  let ?w = "\<lparr> dslLogFile = Some (Json (JArr [JStr (js ''old'')])), readable = True, writable = True,
                     workspaceDsl = None, console = [], maxArguments = 125000 \<rparr>"
  have "writable ?w" by simp
  from clearDslErrors_idempotent[OF this] show ?thesis by simp
qed







end
